theory Spec2Isabelle
  imports Main "HOL-Library.Word"
begin

section \<open>Go runtime and library functions used by the provider\<close>

text \<open>
  Go strings are byte sequences; they are modelled as \<open>string\<close> (a list of bytes).
  An operation that panics at run time returns the panic as a value.
\<close>

datatype go_panic =
    SliceBoundsOutOfRange
  | IndexOutOfRange
  | NilPointerDereference
  | InterfaceConversion

text \<open>\<open>s[n:]\<close>: panics when \<open>n\<close> exceeds the length of \<open>s\<close>.\<close>

definition slice_from :: "'a list \<Rightarrow> nat \<Rightarrow> go_panic + 'a list" where
  "slice_from s n = (if n \<le> length s then Inr (drop n s) else Inl SliceBoundsOutOfRange)"

text \<open>\<open>a[i]\<close>: panics when \<open>i\<close> is not an index of \<open>a\<close>.\<close>

definition index :: "'a list \<Rightarrow> nat \<Rightarrow> go_panic + 'a" where
  "index a i = (if i < length a then Inr (a ! i) else Inl IndexOutOfRange)"

text \<open>\<open>strings.HasPrefix(s, prefix)\<close> is
  \<open>len(s) >= len(prefix) && s[:len(prefix)] == prefix\<close>.\<close>

definition HasPrefix :: "string \<Rightarrow> string \<Rightarrow> bool" where
  "HasPrefix s pre = (length pre \<le> length s \<and> take (length pre) s = pre)"

text \<open>\<open>strings.Contains(s, substr)\<close>: \<open>substr\<close> occurs in \<open>s\<close> at some offset.\<close>

fun Contains :: "string \<Rightarrow> string \<Rightarrow> bool" where
  "Contains [] substr = (substr = [])"
| "Contains (c # s) substr = (HasPrefix (c # s) substr \<or> Contains s substr)"

text \<open>
  \<open>strings.Split(s, sep)\<close> for a separator of one byte, as the library's loop does it:
  while the separator occurs in \<open>s\<close>, cut off the part before its first occurrence and
  go on behind it; what is left is the last part.
\<close>

function Split :: "string \<Rightarrow> char \<Rightarrow> string list" where
  "Split s sep =
     (if sep \<in> set s
      then takeWhile (\<lambda>c. c \<noteq> sep) s # Split (tl (dropWhile (\<lambda>c. c \<noteq> sep) s)) sep
      else [s])"
  by pat_completeness auto
termination
proof (relation "measure (\<lambda>(s, sep). length s)")
  show "wf (measure (\<lambda>(s, sep). length s))" by simp
next
  fix s :: string and sep :: char
  assume "sep \<in> set s"
  then have "dropWhile (\<lambda>c. c \<noteq> sep) s \<noteq> []" by simp
  then have "length (tl (dropWhile (\<lambda>c. c \<noteq> sep) s)) < length (dropWhile (\<lambda>c. c \<noteq> sep) s)"
    by (cases "dropWhile (\<lambda>c. c \<noteq> sep) s") simp_all
  also have "\<dots> \<le> length s" by (rule length_dropWhile_le)
  finally show "((tl (dropWhile (\<lambda>c. c \<noteq> sep) s), sep), (s, sep)) \<in> measure (\<lambda>(s, sep). length s)"
    by simp
qed

declare Split.simps [simp del]

section \<open>The provider identifier codec\<close>

definition providerPrefix :: string where
  "providerPrefix = ''vsphere://''"

text \<open>\<open>fmt.Sprintf("%s%s/%s", providerPrefix, region, machineID)\<close> concatenates.\<close>

definition encodeProviderID :: "string \<Rightarrow> string \<Rightarrow> string" where
  "encodeProviderID region machineID =
     (if machineID = [] then []
      else providerPrefix @ region @ ''/'' @ machineID)"

text \<open>The named results \<open>region\<close> and \<open>machineID\<close> start empty; a bare \<open>return\<close>
  yields them as they are.\<close>

definition decodeProviderID :: "string \<Rightarrow> go_panic + (string \<times> string)" where
  "decodeProviderID providerID =
     (if \<not> HasPrefix providerID providerPrefix then Inr ([], [])
      else case slice_from providerID (length providerPrefix) of
             Inl p \<Rightarrow> Inl p
           | Inr rest \<Rightarrow>
               (let parts = Split rest CHR ''/'' in
                if length parts \<noteq> 2 then Inr ([], [])
                else case index parts 0 of
                       Inl p \<Rightarrow> Inl p
                     | Inr region \<Rightarrow>
                         (case index parts 1 of
                            Inl p \<Rightarrow> Inl p
                          | Inr machineID \<Rightarrow> Inr (region, machineID))))"

text \<open>The condition of the specification on a remainder: it splits at \<open>/\<close> into
  exactly two segments, and neither is empty.\<close>

definition two_nonempty_segments :: "string \<Rightarrow> bool" where
  "two_nonempty_segments rest =
     (case Split rest CHR ''/'' of [a, b] \<Rightarrow> a \<noteq> [] \<and> b \<noteq> [] | _ \<Rightarrow> False)"

section \<open>Provider specification, secrets and errors\<close>

text \<open>The fields of \<open>api.VsphereProviderSpec\<close> and \<open>api.Secrets\<close> that the code reads.\<close>

record VsphereProviderSpec =
  Region :: string
  Datastore :: string
  DatastoreCluster :: string
  TemplateVM :: string
  ComputeCluster :: string
  ResourcePool :: string
  HostSystem :: string
  Network :: string
  Tags :: "string \<rightharpoonup> string"

record Secrets =
  VsphereHost :: string
  VsphereUsername :: string
  VspherePassword :: string
  VsphereInsecureSSL :: bool
  UserData :: string

datatype error =
    Errorf string
  | UrlError
  | ConnectionError
  | MachineNotFound
  | AmbiguousNameError
  | PowerOpError
  | DestroyError
  | ScanError

text \<open>
  \<open>for key := range m\<close> visits every key of the map once, in an order that the runtime
  chooses anew on each run. The order of a run is an argument \<open>ks\<close> of the functions that
  iterate; \<open>range_order m ks\<close> says that \<open>ks\<close> is a possible order for \<open>m\<close>.
\<close>

definition range_order :: "('k \<rightharpoonup> 'v) \<Rightarrow> 'k list \<Rightarrow> bool" where
  "range_order m ks = (distinct ks \<and> set ks = dom m)"

text \<open>
  The loop that \<open>validateSpecTags\<close> and \<open>ListMachines\<close> share, up to the test
  \<open>matches\<close> (\<open>strings.Contains\<close> in the first, \<open>strings.HasPrefix\<close> in the second):
  \<^verbatim>\<open>if matches(key, "kubernetes.io/cluster/") { clusterName = key }
  else if matches(key, "kubernetes.io/role/") { nodeRole = key }\<close>
\<close>

fun tagKeys :: "(string \<Rightarrow> string \<Rightarrow> bool) \<Rightarrow> string list \<Rightarrow> string \<times> string \<Rightarrow> string \<times> string" where
  "tagKeys matches [] (clusterName, nodeRole) = (clusterName, nodeRole)"
| "tagKeys matches (key # ks) (clusterName, nodeRole) =
     (if matches key ''kubernetes.io/cluster/'' then tagKeys matches ks (key, nodeRole)
      else if matches key ''kubernetes.io/role/'' then tagKeys matches ks (clusterName, key)
      else tagKeys matches ks (clusterName, nodeRole))"

section \<open>Validation of the provider specification\<close>

definition validateSpecTags :: "string list \<Rightarrow> (string \<rightharpoonup> string) \<Rightarrow> error list" where
  "validateSpecTags ks tags =
     (case tagKeys Contains ks ([], []) of (clusterName, nodeRole) \<Rightarrow>
        (if clusterName = [] then [Errorf ''tag required of the form kubernetes.io/cluster/****''] else [])
        @ (if nodeRole = [] then [Errorf ''tag required of the form kubernetes.io/role/****''] else []))"

definition validateSecrets :: "Secrets \<Rightarrow> error list" where
  "validateSecrets reference =
     (if [] = VsphereHost reference then [Errorf ''Secret vsphereHost is required field''] else [])
     @ (if [] = VsphereUsername reference then [Errorf ''Secret vsphereUsername is required field''] else [])
     @ (if [] = VspherePassword reference then [Errorf ''Secret vspherePassword is required field''] else [])
     @ (if [] = UserData reference then [Errorf ''Secret userData is required field''] else [])"

definition ValidateVsphereProviderSpec ::
    "string list \<Rightarrow> VsphereProviderSpec \<Rightarrow> Secrets \<Rightarrow> error list" where
  "ValidateVsphereProviderSpec ks spec secrets =
     (if [] = Datastore spec \<and> [] = DatastoreCluster spec
      then [Errorf ''either datastoreCluster or datastore field is required''] else [])
     @ (if [] = TemplateVM spec then [Errorf ''templateVM is a required field''] else [])
     @ (if [] = ComputeCluster spec \<and> [] = ResourcePool spec \<and> [] = HostSystem spec
        then [Errorf ''either computeCluster or resourcePool or hostSystem field is required'']
        else [])
     @ (if [] = Network spec then [Errorf ''network is a required field''] else [])
     @ validateSecrets secrets
     @ validateSpecTags ks (Tags spec)"

section \<open>The virtualization platform\<close>

text \<open>
  A custom value of a managed entity is a \<open>types.BaseCustomFieldValue\<close>: a
  \<open>*types.CustomFieldStringValue\<close> with a key and a string, or a plain
  \<open>*types.CustomFieldValue\<close> with a key only. Keys are \<open>int32\<close>.
\<close>

datatype CustomFieldValue =
    CustomFieldStringValue "32 word" string
  | CustomFieldValue "32 word"

record CustomFieldDef =
  def_Key :: "32 word"
  def_Name :: string

text \<open>\<open>CustomFieldDefList.ByKey\<close> of the SDK: the first definition with the key,
  \<open>nil\<close> when there is none.\<close>

fun ByKey :: "CustomFieldDef list \<Rightarrow> 32 word \<Rightarrow> CustomFieldDef option" where
  "ByKey [] key = None"
| "ByKey (d # l) key = (if def_Key d = key then Some d else ByKey l key)"

record ManagedEntity =
  Name :: string
  CustomValue :: "CustomFieldValue list"

record VirtualMachine =
  UUID :: string
  entity :: ManagedEntity
  poweredOn :: bool

text \<open>The calls to the platform that an operation makes, in order.\<close>

datatype platform_call =
    OpenSession
  | Close
  | LookupByNativeId string
  | LookupByName string
  | ScanTaggedMachines
  | PowerOff string
  | Destroy string

text \<open>
  The state of the platform and of the libraries between the provider and it:
  which URLs \<open>url.Parse\<close> rejects, which logins the platform refuses, the custom field
  definitions, the virtual machines, which of them lie in the placement scope of a
  specification, which requests the platform refuses, whether a scan of a scope fails
  (after how many machines, and with which error), and the calls made so far.
\<close>

record platform =
  url_Parse_error :: "string \<Rightarrow> error option"
  login_error :: "string \<Rightarrow> string \<Rightarrow> string \<Rightarrow> bool \<Rightarrow> error option"
  custom_fields :: "CustomFieldDef list"
  inventory :: "VirtualMachine list"
  in_scope :: "VsphereProviderSpec \<Rightarrow> VirtualMachine \<Rightarrow> bool"
  refuses_PowerOff :: "VirtualMachine \<Rightarrow> bool"
  refuses_Destroy :: "VirtualMachine \<Rightarrow> bool"
  scan_error :: "VsphereProviderSpec \<Rightarrow> (nat \<times> error) option"
  calls :: "platform_call list"

datatype Client = Client string string

definition called :: "platform_call \<Rightarrow> platform \<Rightarrow> platform" where
  "called c pf = pf\<lparr>calls := calls pf @ [c]\<rparr>"

definition scope :: "platform \<Rightarrow> VsphereProviderSpec \<Rightarrow> VirtualMachine list" where
  "scope pf spec = filter (in_scope pf spec) (inventory pf)"

text \<open>
  Modelled from the spec: the collaborator \<open>OpenSession(credentials)\<close>, which gives a
  session or fails (here \<open>govmomi.NewClient\<close>), and \<open>Session.Close()\<close>
  (here \<open>client.Logout\<close>).
\<close>

definition NewClient ::
    "platform \<Rightarrow> string \<Rightarrow> string \<Rightarrow> string \<Rightarrow> bool \<Rightarrow> platform \<times> (error + Client)" where
  "NewClient pf url user password insecure =
     (case login_error pf url user password insecure of
        Some err \<Rightarrow> (called OpenSession pf, Inl err)
      | None \<Rightarrow> (called OpenSession pf, Inr (Client url user)))"

definition Logout :: "platform \<Rightarrow> Client \<Rightarrow> platform" where
  "Logout pf client = called Close pf"

text \<open>\<open>defer client.Logout(ctx)\<close>: the session is closed when the operation leaves,
  whatever it returns.\<close>

definition defer_Logout :: "Client \<Rightarrow> platform \<times> 'r \<Rightarrow> platform \<times> 'r" where
  "defer_Logout client out = (Logout (fst out) client, snd out)"

definition createVsphereClient :: "platform \<Rightarrow> Secrets \<Rightarrow> platform \<times> (error + Client)" where
  "createVsphereClient pf secret =
     (case url_Parse_error pf (''https://'' @ VsphereHost secret @ ''/sdk'') of
        Some err \<Rightarrow> (pf, Inl err)
      | None \<Rightarrow>
          NewClient pf (''https://'' @ VsphereHost secret @ ''/sdk'')
            (VsphereUsername secret) (VspherePassword secret) (VsphereInsecureSSL secret))"

section \<open>The discovery engine\<close>

text \<open>
  Modelled from the spec: \<open>LookupByNativeId(session, scope, id)\<close> gives a machine of
  the scope with that native id or nothing; \<open>LookupByName(session, scope, name)\<close> gives
  the machine of that name, nothing when there is none, and fails when there are several.
\<close>

definition lookupByNativeId ::
    "platform \<Rightarrow> VsphereProviderSpec \<Rightarrow> string \<Rightarrow> platform \<times> VirtualMachine option" where
  "lookupByNativeId pf spec machineID =
     (called (LookupByNativeId machineID) pf,
      find (\<lambda>vm. UUID vm = machineID) (scope pf spec))"

definition lookupByName ::
    "platform \<Rightarrow> VsphereProviderSpec \<Rightarrow> string \<Rightarrow> platform \<times> (error + VirtualMachine option)" where
  "lookupByName pf spec machineName =
     (called (LookupByName machineName) pf,
      case filter (\<lambda>vm. Name (entity vm) = machineName) (scope pf spec) of
        [] \<Rightarrow> Inr None
      | [vm] \<Rightarrow> Inr (Some vm)
      | _ \<Rightarrow> Inl AmbiguousNameError)"

text \<open>
  Modelled from the spec: steps 1 and 2 of the discovery algorithm. A non-empty native
  id is looked up first; when it is empty or finds nothing, the name is looked up.
\<close>

definition discover ::
    "platform \<Rightarrow> VsphereProviderSpec \<Rightarrow> string \<Rightarrow> string
       \<Rightarrow> platform \<times> (error + VirtualMachine option)" where
  "discover pf spec machineName machineID =
     (if machineID \<noteq> [] then
        (case lookupByNativeId pf spec machineID of
           (pf1, Some vm) \<Rightarrow> (pf1, Inr (Some vm))
         | (pf1, None) \<Rightarrow> lookupByName pf1 spec machineName)
      else lookupByName pf spec machineName)"

text \<open>
  Modelled from the spec: \<open>findVM\<close>, \<open>deleteVM\<close> and \<open>shutDownVM\<close>, which are not
  part of the sources at hand. \<open>findVM\<close> signals a machine that is not found;
  for \<open>deleteVM\<close> and \<open>shutDownVM\<close> an absent machine is a success with an empty id.
  A machine that is already off is shut down without a request to the platform.
\<close>

definition findVM ::
    "platform \<Rightarrow> Client \<Rightarrow> VsphereProviderSpec \<Rightarrow> string \<Rightarrow> string
       \<Rightarrow> platform \<times> (VirtualMachine option \<times> error option)" where
  "findVM pf client spec machineName machineID =
     (case discover pf spec machineName machineID of
        (pf1, Inl err) \<Rightarrow> (pf1, (None, Some err))
      | (pf1, Inr None) \<Rightarrow> (pf1, (None, Some MachineNotFound))
      | (pf1, Inr (Some vm)) \<Rightarrow> (pf1, (Some vm, None)))"

definition deleteVM ::
    "platform \<Rightarrow> Client \<Rightarrow> VsphereProviderSpec \<Rightarrow> string \<Rightarrow> string
       \<Rightarrow> platform \<times> (string \<times> error option)" where
  "deleteVM pf client spec machineName machineID =
     (case discover pf spec machineName machineID of
        (pf1, Inl err) \<Rightarrow> (pf1, ([], Some err))
      | (pf1, Inr None) \<Rightarrow> (pf1, ([], None))
      | (pf1, Inr (Some vm)) \<Rightarrow>
          (if refuses_Destroy pf1 vm
           then (called (Destroy (UUID vm)) pf1, ([], Some DestroyError))
           else (called (Destroy (UUID vm))
                   (pf1\<lparr>inventory := filter (\<lambda>v. v \<noteq> vm) (inventory pf1)\<rparr>),
                 (UUID vm, None))))"

definition shutDownVM ::
    "platform \<Rightarrow> Client \<Rightarrow> VsphereProviderSpec \<Rightarrow> string \<Rightarrow> string
       \<Rightarrow> platform \<times> (string \<times> error option)" where
  "shutDownVM pf client spec machineName machineID =
     (case discover pf spec machineName machineID of
        (pf1, Inl err) \<Rightarrow> (pf1, ([], Some err))
      | (pf1, Inr None) \<Rightarrow> (pf1, ([], None))
      | (pf1, Inr (Some vm)) \<Rightarrow>
          (if \<not> poweredOn vm then (pf1, (UUID vm, None))
           else if refuses_PowerOff pf1 vm
           then (called (PowerOff (UUID vm)) pf1, ([], Some PowerOpError))
           else (called (PowerOff (UUID vm))
                   (pf1\<lparr>inventory :=
                          map (\<lambda>v. if v = vm then v\<lparr>poweredOn := False\<rparr> else v) (inventory pf1)\<rparr>),
                 (UUID vm, None))))"

text \<open>
  Modelled from the spec: \<open>ScanTaggedMachines(session, scope, visitor)\<close>
  (here \<open>visitVirtualMachines\<close>) calls the visitor for every machine of the scope and
  stops at the first error. \<open>ListMachines\<close> handles an error of the scan, so the scan
  may also fail by itself: after the visitor has seen some of the machines, with an error
  of the platform. The visitor of \<open>ListMachines\<close> updates the map
  \<open>machineList\<close> of its enclosing function, so the map is passed through.
\<close>

type_synonym machineList = "string \<rightharpoonup> string"

type_synonym visitor =
  "VirtualMachine \<Rightarrow> ManagedEntity \<Rightarrow> CustomFieldDef list \<Rightarrow> machineList
     \<Rightarrow> go_panic + (machineList \<times> error option)"

fun visitEach ::
    "visitor \<Rightarrow> CustomFieldDef list \<Rightarrow> VirtualMachine list \<Rightarrow> machineList
       \<Rightarrow> go_panic + (machineList \<times> error option)" where
  "visitEach visitor field [] machineList = Inr (machineList, None)"
| "visitEach visitor field (vm # vms) machineList =
     (case visitor vm (entity vm) field machineList of
        Inl p \<Rightarrow> Inl p
      | Inr (machineList1, Some err) \<Rightarrow> Inr (machineList1, Some err)
      | Inr (machineList1, None) \<Rightarrow> visitEach visitor field vms machineList1)"

definition visitVirtualMachines ::
    "platform \<Rightarrow> Client \<Rightarrow> VsphereProviderSpec \<Rightarrow> visitor \<Rightarrow> machineList
       \<Rightarrow> platform \<times> (go_panic + (machineList \<times> error option))" where
  "visitVirtualMachines pf client spec visitor machineList =
     (called ScanTaggedMachines pf,
      case scan_error pf spec of
        None \<Rightarrow> visitEach visitor (custom_fields pf) (scope pf spec) machineList
      | Some (n, err) \<Rightarrow>
          (case visitEach visitor (custom_fields pf) (take n (scope pf spec)) machineList of
             Inl p \<Rightarrow> Inl p
           | Inr (machineList1, Some err1) \<Rightarrow> Inr (machineList1, Some err1)
           | Inr (machineList1, None) \<Rightarrow> Inr (machineList1, Some err)))"

section \<open>The lifecycle operations\<close>

text \<open>
  An operation returns the platform as it leaves it and either a panic or the pair of
  its Go results: a value and an error, \<open>None\<close> for \<open>nil\<close>.
\<close>

definition DeleteMachine ::
    "platform \<Rightarrow> string \<Rightarrow> string \<Rightarrow> VsphereProviderSpec \<Rightarrow> Secrets
       \<Rightarrow> platform \<times> (go_panic + (string \<times> error option))" where
  "DeleteMachine pf machineName providerID providerSpec secrets =
     (case createVsphereClient pf secrets of
        (pf1, Inl err) \<Rightarrow> (pf1, Inr ([], Some err))
      | (pf1, Inr client) \<Rightarrow> defer_Logout client
          (case decodeProviderID providerID of
             Inl p \<Rightarrow> (pf1, Inl p)
           | Inr (region, machineID) \<Rightarrow>
               (case deleteVM pf1 client providerSpec machineName machineID of
                  (pf2, (foundMachineID, Some err)) \<Rightarrow> (pf2, Inr ([], Some err))
                | (pf2, (foundMachineID, None)) \<Rightarrow>
                    (pf2, Inr (encodeProviderID (Region providerSpec) foundMachineID, None)))))"

definition ShutDownMachine ::
    "platform \<Rightarrow> string \<Rightarrow> string \<Rightarrow> VsphereProviderSpec \<Rightarrow> Secrets
       \<Rightarrow> platform \<times> (go_panic + (string \<times> error option))" where
  "ShutDownMachine pf machineName providerID providerSpec secrets =
     (case createVsphereClient pf secrets of
        (pf1, Inl err) \<Rightarrow> (pf1, Inr ([], Some err))
      | (pf1, Inr client) \<Rightarrow> defer_Logout client
          (case decodeProviderID providerID of
             Inl p \<Rightarrow> (pf1, Inl p)
           | Inr (region, machineID) \<Rightarrow>
               (case shutDownVM pf1 client providerSpec machineName machineID of
                  (pf2, (foundMachineID, Some err)) \<Rightarrow> (pf2, Inr ([], Some err))
                | (pf2, (foundMachineID, None)) \<Rightarrow>
                    (pf2, Inr (encodeProviderID (Region providerSpec) foundMachineID, None)))))"

text \<open>\<open>vm.UUID(ctx)\<close> on the \<open>nil\<close> machine dereferences a nil pointer.\<close>

definition GetMachineStatus ::
    "platform \<Rightarrow> string \<Rightarrow> string \<Rightarrow> VsphereProviderSpec \<Rightarrow> Secrets
       \<Rightarrow> platform \<times> (go_panic + (string \<times> error option))" where
  "GetMachineStatus pf machineName providerID providerSpec secrets =
     (case createVsphereClient pf secrets of
        (pf1, Inl err) \<Rightarrow> (pf1, Inr ([], Some err))
      | (pf1, Inr client) \<Rightarrow> defer_Logout client
          (case decodeProviderID providerID of
             Inl p \<Rightarrow> (pf1, Inl p)
           | Inr (region, machineID) \<Rightarrow>
               (case findVM pf1 client providerSpec machineName machineID of
                  (pf2, (vm, Some err)) \<Rightarrow> (pf2, Inr ([], Some err))
                | (pf2, (None, None)) \<Rightarrow> (pf2, Inl NilPointerDereference)
                | (pf2, (Some vm, None)) \<Rightarrow>
                    (pf2, Inr (encodeProviderID (Region providerSpec) (UUID vm), None)))))"

text \<open>
  The loop of the visitor over \<open>obj.CustomValue\<close>. The type assertion
  \<open>cv.(*types.CustomFieldStringValue)\<close> panics on a value of the other type, and
  \<open>field.ByKey(sv.Key).Name\<close> panics when no definition has the key. In the
  \<open>switch\<close> the first case that equals the name is taken.
\<close>

fun matchTags ::
    "string \<Rightarrow> string \<Rightarrow> CustomFieldDef list \<Rightarrow> CustomFieldValue list \<Rightarrow> bool \<times> bool
       \<Rightarrow> go_panic + (bool \<times> bool)" where
  "matchTags clusterName nodeRole field [] (matchedCluster, matchedRole) =
     Inr (matchedCluster, matchedRole)"
| "matchTags clusterName nodeRole field (CustomFieldValue key # cvs) (matchedCluster, matchedRole) =
     Inl InterfaceConversion"
| "matchTags clusterName nodeRole field (CustomFieldStringValue key val # cvs)
       (matchedCluster, matchedRole) =
     (case ByKey field key of
        None \<Rightarrow> Inl NilPointerDereference
      | Some d \<Rightarrow>
          (if def_Name d = clusterName
           then matchTags clusterName nodeRole field cvs (True, matchedRole)
           else if def_Name d = nodeRole
           then matchTags clusterName nodeRole field cvs (matchedCluster, True)
           else matchTags clusterName nodeRole field cvs (matchedCluster, matchedRole)))"

definition ListMachines_visitor :: "string \<Rightarrow> string \<Rightarrow> VsphereProviderSpec \<Rightarrow> visitor" where
  "ListMachines_visitor clusterName nodeRole providerSpec vm obj field machineList =
     (case matchTags clusterName nodeRole field (CustomValue obj) (False, False) of
        Inl p \<Rightarrow> Inl p
      | Inr (matchedCluster, matchedRole) \<Rightarrow>
          (if matchedCluster \<and> matchedRole
           then Inr (machineList(encodeProviderID (Region providerSpec) (UUID vm) \<mapsto> Name obj), None)
           else Inr (machineList, None)))"

text \<open>The result map of \<open>ListMachines\<close> is \<open>None\<close> where the code returns \<open>nil\<close>.
  \<open>ks\<close> is the order in which \<open>range providerSpec.Tags\<close> yields the keys.\<close>

definition ListMachines ::
    "string list \<Rightarrow> platform \<Rightarrow> VsphereProviderSpec \<Rightarrow> Secrets
       \<Rightarrow> platform \<times> (go_panic + (machineList option \<times> error option))" where
  "ListMachines ks pf providerSpec secrets =
     (case createVsphereClient pf secrets of
        (pf1, Inl err) \<Rightarrow> (pf1, Inr (None, Some err))
      | (pf1, Inr client) \<Rightarrow> defer_Logout client
          (case tagKeys HasPrefix ks ([], []) of (clusterName, nodeRole) \<Rightarrow>
             if clusterName = [] \<or> nodeRole = [] then (pf1, Inr (Some Map.empty, None))
             else
               (case visitVirtualMachines pf1 client providerSpec
                       (ListMachines_visitor clusterName nodeRole providerSpec) Map.empty of
                  (pf2, Inl p) \<Rightarrow> (pf2, Inl p)
                | (pf2, Inr (machineList, Some err)) \<Rightarrow> (pf2, Inr (None, Some err))
                | (pf2, Inr (machineList, None)) \<Rightarrow> (pf2, Inr (Some machineList, None)))))"

text \<open>The names of the custom fields that a managed entity carries as string values.\<close>

fun fieldNames :: "CustomFieldDef list \<Rightarrow> CustomFieldValue list \<Rightarrow> string list" where
  "fieldNames field [] = []"
| "fieldNames field (CustomFieldValue key # cvs) = fieldNames field cvs"
| "fieldNames field (CustomFieldStringValue key val # cvs) =
     (case ByKey field key of
        None \<Rightarrow> fieldNames field cvs
      | Some d \<Rightarrow> def_Name d # fieldNames field cvs)"

text \<open>The custom values on which the visitor does not panic: string values whose key
  has a definition.\<close>

fun wellTyped :: "CustomFieldDef list \<Rightarrow> CustomFieldValue list \<Rightarrow> bool" where
  "wellTyped field [] = True"
| "wellTyped field (CustomFieldValue key # cvs) = False"
| "wellTyped field (CustomFieldStringValue key val # cvs) =
     (ByKey field key \<noteq> None \<and> wellTyped field cvs)"

text \<open>A machine carries a name when one of its string values belongs to a custom field
  of that name.\<close>

definition carries :: "CustomFieldDef list \<Rightarrow> VirtualMachine \<Rightarrow> string \<Rightarrow> bool" where
  "carries field vm name = (name \<in> set (fieldNames field (CustomValue (entity vm))))"

section \<open>Example values\<close>

text \<open>A tag map whose two keys contain the patterns behind a leading \<open>x-\<close>.\<close>

definition interior_tags :: "string \<rightharpoonup> string" where
  "interior_tags = [''x-kubernetes.io/cluster/c'' \<mapsto> ''1'', ''x-kubernetes.io/role/node'' \<mapsto> ''1'']"

text \<open>A provider specification, secrets, one order of the keys of the tags, and a
  platform that accepts the login and holds three machines: one carrying both tags of
  the specification, one carrying a cluster and a role tag of another cluster, and one
  carrying the cluster tag only.\<close>

definition example_secrets :: Secrets where
  "example_secrets =
     \<lparr>VsphereHost = ''vcenter.local'', VsphereUsername = ''admin'', VspherePassword = ''secret'',
      VsphereInsecureSSL = False, UserData = ''#cloud-config''\<rparr>"

definition example_spec :: VsphereProviderSpec where
  "example_spec =
     \<lparr>Region = ''eu-1'', Datastore = ''ds1'', DatastoreCluster = [], TemplateVM = ''template'',
      ComputeCluster = ''cluster1'', ResourcePool = [], HostSystem = [], Network = ''net1'',
      Tags = [''kubernetes.io/cluster/a'' \<mapsto> ''1'', ''kubernetes.io/role/node'' \<mapsto> ''1'']\<rparr>"

definition example_keys :: "string list" where
  "example_keys = [''kubernetes.io/role/node'', ''kubernetes.io/cluster/a'']"

definition machine_a :: VirtualMachine where
  "machine_a =
     \<lparr>UUID = ''uuid-a'',
      entity = \<lparr>Name = ''machine-a'',
                CustomValue = [CustomFieldStringValue 1 ''1'', CustomFieldStringValue 2 ''1'']\<rparr>,
      poweredOn = True\<rparr>"

definition machine_b :: VirtualMachine where
  "machine_b =
     \<lparr>UUID = ''uuid-b'',
      entity = \<lparr>Name = ''machine-b'',
                CustomValue = [CustomFieldStringValue 3 ''1'', CustomFieldStringValue 4 ''1'']\<rparr>,
      poweredOn = True\<rparr>"

definition machine_c :: VirtualMachine where
  "machine_c =
     \<lparr>UUID = ''uuid-c'',
      entity = \<lparr>Name = ''machine-c'', CustomValue = [CustomFieldStringValue 1 ''1'']\<rparr>,
      poweredOn = False\<rparr>"

definition example_platform :: platform where
  "example_platform =
     \<lparr>url_Parse_error = (\<lambda>url. None),
      login_error = (\<lambda>url user password insecure. None),
      custom_fields =
        [\<lparr>def_Key = 1, def_Name = ''kubernetes.io/cluster/a''\<rparr>,
         \<lparr>def_Key = 2, def_Name = ''kubernetes.io/role/node''\<rparr>,
         \<lparr>def_Key = 3, def_Name = ''kubernetes.io/cluster/b''\<rparr>,
         \<lparr>def_Key = 4, def_Name = ''kubernetes.io/role/worker''\<rparr>],
      inventory = [machine_a, machine_b, machine_c],
      in_scope = (\<lambda>spec vm. True),
      refuses_PowerOff = (\<lambda>vm. False),
      refuses_Destroy = (\<lambda>vm. False),
      scan_error = (\<lambda>spec. None),
      calls = []\<rparr>"

text \<open>A specification with two cluster keys, and a platform with one machine that
  carries two given names.\<close>

definition two_cluster_spec :: VsphereProviderSpec where
  "two_cluster_spec =
     example_spec\<lparr>Tags := [''kubernetes.io/cluster/a'' \<mapsto> ''1'',
                             ''kubernetes.io/cluster/b'' \<mapsto> ''1'',
                             ''kubernetes.io/role/node'' \<mapsto> ''1'']\<rparr>"

definition tagged_platform :: "string \<Rightarrow> string \<Rightarrow> platform" where
  "tagged_platform clusterName nodeRole =
     \<lparr>url_Parse_error = (\<lambda>url. None),
      login_error = (\<lambda>url user password insecure. None),
      custom_fields =
        [\<lparr>def_Key = 1, def_Name = clusterName\<rparr>, \<lparr>def_Key = 2, def_Name = nodeRole\<rparr>],
      inventory =
        [\<lparr>UUID = ''uuid-1'',
          entity = \<lparr>Name = ''machine-1'',
                    CustomValue = [CustomFieldStringValue 1 ''1'', CustomFieldStringValue 2 ''1'']\<rparr>,
          poweredOn = True\<rparr>],
      in_scope = (\<lambda>spec vm. True),
      refuses_PowerOff = (\<lambda>vm. False),
      refuses_Destroy = (\<lambda>vm. False),
      scan_error = (\<lambda>spec. None),
      calls = []\<rparr>"

section \<open>Properties of the library functions\<close>

lemma Split_no_sep: "sep \<notin> set s \<Longrightarrow> Split s sep = [s]"
  by (subst Split.simps) simp

lemma Split_append_sep:
  assumes "sep \<notin> set r"
  shows "Split (r @ sep # m) sep = r # Split m sep"
proof -
  have tw: "takeWhile (\<lambda>c. c \<noteq> sep) (r @ sep # m) = r"
    using assms by (induction r) auto
  have dw: "dropWhile (\<lambda>c. c \<noteq> sep) (r @ sep # m) = sep # m"
    using assms by (induction r) auto
  show ?thesis
    by (subst Split.simps) (simp add: tw dw)
qed

lemma length_Split: "length (Split s sep) = Suc (count_list s sep)"
proof (induction s sep rule: Split.induct)
  case (1 s sep)
  show ?case
  proof (cases "sep \<in> set s")
    case False
    then show ?thesis by (simp add: Split_no_sep)
  next
    case True
    let ?r = "takeWhile (\<lambda>c. c \<noteq> sep) s"
    let ?d = "dropWhile (\<lambda>c. c \<noteq> sep) s"
    from True have "?d \<noteq> []" by simp
    moreover have "hd ?d = sep" using True hd_dropWhile [of "\<lambda>c. c \<noteq> sep" s] by auto
    ultimately have d: "?d = sep # tl ?d" by (cases ?d) auto
    have s: "s = ?r @ sep # tl ?d" using d takeWhile_dropWhile_id [of "\<lambda>c. c \<noteq> sep" s] by simp
    have r: "count_list ?r sep = 0"
      by (rule count_notin) (auto dest: set_takeWhileD)
    have "count_list s sep = count_list (?r @ sep # tl ?d) sep" using s by simp
    also have "\<dots> = Suc (count_list (tl ?d) sep)" using r by simp
    finally have c: "count_list s sep = Suc (count_list (tl ?d) sep)" .
    have "Split s sep = ?r # Split (tl ?d) sep"
      using True by (subst Split.simps) simp
    then show ?thesis using "1.IH" [OF True] c by simp
  qed
qed

lemma HasPrefix_append: "HasPrefix (pre @ s) pre"
  by (simp add: HasPrefix_def)

lemma HasPrefix_D: "HasPrefix s pre \<Longrightarrow> s = pre @ drop (length pre) s"
  by (metis HasPrefix_def append_take_drop_id)

section \<open>Properties of the codec\<close>

lemma decodeProviderID_prefixed:
  "decodeProviderID (providerPrefix @ rest) =
     (if count_list rest CHR ''/'' = 1
      then Inr (takeWhile (\<lambda>c. c \<noteq> CHR ''/'') rest, tl (dropWhile (\<lambda>c. c \<noteq> CHR ''/'') rest))
      else Inr ([], []))"
proof (cases "count_list rest CHR ''/'' = 1")
  case False
  then show ?thesis
    by (simp add: decodeProviderID_def HasPrefix_append slice_from_def length_Split)
next
  case True
  then have mem: "CHR ''/'' \<in> set rest"
    using count_notin [of "CHR ''/''" rest] by auto
  let ?d = "tl (dropWhile (\<lambda>c. c \<noteq> CHR ''/'') rest)"
  have sp: "Split rest CHR ''/'' = takeWhile (\<lambda>c. c \<noteq> CHR ''/'') rest # Split ?d CHR ''/''"
    using mem by (subst Split.simps) simp
  have "length (Split rest CHR ''/'') = 2" using True by (simp add: length_Split)
  then have "length (Split ?d CHR ''/'') = 1" using sp by simp
  then have "count_list ?d CHR ''/'' = 0" by (simp add: length_Split)
  then have "CHR ''/'' \<notin> set ?d" by (simp add: count_list_0_iff)
  then have "Split ?d CHR ''/'' = [?d]" by (rule Split_no_sep)
  with sp have "Split rest CHR ''/'' = [takeWhile (\<lambda>c. c \<noteq> CHR ''/'') rest, ?d]" by simp
  then show ?thesis using True
    by (simp add: decodeProviderID_def HasPrefix_append slice_from_def index_def)
qed

lemma decodeProviderID_not_prefixed:
  "\<not> HasPrefix s providerPrefix \<Longrightarrow> decodeProviderID s = Inr ([], [])"
  by (simp add: decodeProviderID_def)

lemma decodeProviderID_total: "\<exists>region machineID. decodeProviderID s = Inr (region, machineID)"
proof (cases "HasPrefix s providerPrefix")
  case False
  then show ?thesis by (simp add: decodeProviderID_not_prefixed)
next
  case True
  then have "s = providerPrefix @ drop (length providerPrefix) s" by (rule HasPrefix_D)
  then obtain rest where "s = providerPrefix @ rest" ..
  then show ?thesis by (simp add: decodeProviderID_prefixed)
qed

lemma decodeProviderID_two_segments:
  assumes "CHR ''/'' \<notin> set r" and "CHR ''/'' \<notin> set m"
  shows "decodeProviderID (providerPrefix @ r @ ''/'' @ m) = Inr (r, m)"
proof -
  have tw: "takeWhile (\<lambda>c. c \<noteq> CHR ''/'') (r @ CHR ''/'' # m) = r"
    using assms(1) by (induction r) auto
  have dw: "dropWhile (\<lambda>c. c \<noteq> CHR ''/'') (r @ CHR ''/'' # m) = CHR ''/'' # m"
    using assms(1) by (induction r) auto
  have "count_list (r @ CHR ''/'' # m) CHR ''/'' = 1"
    using assms by (simp add: count_notin)
  then show ?thesis
    using decodeProviderID_prefixed [of "r @ CHR ''/'' # m"] by (simp add: tw dw)
qed

text \<open>
  C4. For every region, the empty one included, encoding an empty native machine id
  gives the empty provider identifier.
\<close>

theorem encodeProviderID_empty_id: "encodeProviderID region [] = []"
  by (simp add: encodeProviderID_def)

text \<open>
  C1 (as amended). For every pair of non-empty strings \<open>(region, machineID)\<close>, decoding
  the encoded pair gives the pair back exactly when neither string contains \<open>/\<close>; a
  pair with a \<open>/\<close> in either string decodes to two empty strings.
\<close>

theorem decode_encode_roundtrip_iff:
  assumes "region \<noteq> []" and "machineID \<noteq> []"
  shows "(decodeProviderID (encodeProviderID region machineID) = Inr (region, machineID)
          \<longleftrightarrow> CHR ''/'' \<notin> set region \<and> CHR ''/'' \<notin> set machineID)
       \<and> (CHR ''/'' \<in> set region \<or> CHR ''/'' \<in> set machineID
          \<longrightarrow> decodeProviderID (encodeProviderID region machineID) = Inr ([], []))"
proof -
  let ?rest = "region @ CHR ''/'' # machineID"
  have enc: "encodeProviderID region machineID = providerPrefix @ ?rest"
    using assms(2) by (simp add: encodeProviderID_def)
  have clean: "decodeProviderID (encodeProviderID region machineID) = Inr (region, machineID)"
    if "CHR ''/'' \<notin> set region \<and> CHR ''/'' \<notin> set machineID"
    using that assms(2) by (simp add: encodeProviderID_def decodeProviderID_two_segments [simplified])
  have slash: "decodeProviderID (encodeProviderID region machineID) = Inr ([], [])"
    if "CHR ''/'' \<in> set region \<or> CHR ''/'' \<in> set machineID"
  proof -
    from that have "count_list region CHR ''/'' \<noteq> 0 \<or> count_list machineID CHR ''/'' \<noteq> 0"
      by (simp add: count_list_0_iff)
    then have "count_list ?rest CHR ''/'' \<noteq> 1" by auto
    then have "decodeProviderID (providerPrefix @ ?rest) = Inr ([], [])"
      by (simp only: decodeProviderID_prefixed if_False)
    then show ?thesis by (simp only: enc)
  qed
  have "CHR ''/'' \<notin> set region \<and> CHR ''/'' \<notin> set machineID"
    if rt: "decodeProviderID (encodeProviderID region machineID) = Inr (region, machineID)"
  proof (rule ccontr)
    assume "\<not> (CHR ''/'' \<notin> set region \<and> CHR ''/'' \<notin> set machineID)"
    then have "CHR ''/'' \<in> set region \<or> CHR ''/'' \<in> set machineID" by simp
    then have "decodeProviderID (encodeProviderID region machineID) = Inr ([], [])"
      by (rule slash)
    with rt assms show False by simp
  qed
  with clean slash show ?thesis by blast
qed

theorem decode_encode_roundtrip_iff_witness:
  "''eu-1'' \<noteq> [] \<and> ''abc-123'' \<noteq> [] \<and> CHR ''/'' \<notin> set ''eu-1'' \<and> CHR ''/'' \<notin> set ''abc-123''
   \<and> decodeProviderID (encodeProviderID ''eu-1'' ''abc-123'') = Inr (''eu-1'', ''abc-123'')
   \<and> ''eu/1'' \<noteq> [] \<and> CHR ''/'' \<in> set ''eu/1''
   \<and> decodeProviderID (encodeProviderID ''eu/1'' ''abc-123'') = Inr ([], [])"
  using decode_encode_roundtrip_iff [of "''eu-1''" "''abc-123''"]
    decode_encode_roundtrip_iff [of "''eu/1''" "''abc-123''"]
  by simp

text \<open>The round trip fails for the non-empty pair \<open>("a/b", "c")\<close>: its identifier
  \<open>vsphere://a/b/c\<close> has three segments and decodes to two empty strings.\<close>

theorem decode_encode_roundtrip_counterexample:
  "''a/b'' \<noteq> [] \<and> ''c'' \<noteq> [] \<and>
   decodeProviderID (encodeProviderID ''a/b'' ''c'') = Inr ([], []) \<and>
   decodeProviderID (encodeProviderID ''a/b'' ''c'') \<noteq> Inr (''a/b'', ''c'')"
  by code_simp

text \<open>
  C2 (as amended). \<open>decodeProviderID\<close> returns a pair for every string and never
  panics. It returns two empty strings for every string that does not start with the
  prefix or whose remainder does not have exactly one \<open>/\<close>, that is, does not
  split into exactly two segments. A remainder of two segments without \<open>/\<close> is
  returned as these segments, whether or not they are empty.
\<close>

theorem decodeProviderID_total_malformed:
  "(\<exists>region machineID. decodeProviderID s = Inr (region, machineID)) \<and>
   (\<not> HasPrefix s providerPrefix \<or> count_list (drop (length providerPrefix) s) CHR ''/'' \<noteq> 1
      \<longrightarrow> decodeProviderID s = Inr ([], [])) \<and>
   (CHR ''/'' \<notin> set r \<and> CHR ''/'' \<notin> set m
      \<longrightarrow> decodeProviderID (providerPrefix @ r @ ''/'' @ m) = Inr (r, m))"
proof (intro conjI impI)
  show "\<exists>region machineID. decodeProviderID s = Inr (region, machineID)"
    by (rule decodeProviderID_total)
next
  assume bad: "\<not> HasPrefix s providerPrefix \<or> count_list (drop (length providerPrefix) s) CHR ''/'' \<noteq> 1"
  show "decodeProviderID s = Inr ([], [])"
  proof (cases "HasPrefix s providerPrefix")
    case False
    then show ?thesis by (rule decodeProviderID_not_prefixed)
  next
    case True
    then have s: "s = providerPrefix @ drop (length providerPrefix) s" by (rule HasPrefix_D)
    from True bad have "count_list (drop (length providerPrefix) s) CHR ''/'' \<noteq> 1" by simp
    then have "decodeProviderID (providerPrefix @ drop (length providerPrefix) s) = Inr ([], [])"
      by (simp only: decodeProviderID_prefixed if_False)
    with s show ?thesis by simp
  qed
next
  assume "CHR ''/'' \<notin> set r \<and> CHR ''/'' \<notin> set m"
  then show "decodeProviderID (providerPrefix @ r @ ''/'' @ m) = Inr (r, m)"
    by (simp add: decodeProviderID_two_segments [simplified])
qed

theorem decodeProviderID_total_malformed_witness:
  "\<not> HasPrefix ''garbage'' providerPrefix \<and> decodeProviderID ''garbage'' = Inr ([], []) \<and>
   HasPrefix ''vsphere://a/b/c'' providerPrefix \<and>
   count_list (drop (length providerPrefix) ''vsphere://a/b/c'') CHR ''/'' \<noteq> 1 \<and>
   decodeProviderID ''vsphere://a/b/c'' = Inr ([], []) \<and>
   CHR ''/'' \<notin> set ''eu-1'' \<and> CHR ''/'' \<notin> set ''abc-123'' \<and>
   decodeProviderID (providerPrefix @ ''eu-1'' @ ''/'' @ ''abc-123'') = Inr (''eu-1'', ''abc-123'')"
proof -
  have g: "\<not> HasPrefix ''garbage'' providerPrefix"
    by (simp add: HasPrefix_def providerPrefix_def)
  have p: "HasPrefix ''vsphere://a/b/c'' providerPrefix"
    by (simp add: HasPrefix_def providerPrefix_def)
  have c: "count_list (drop (length providerPrefix) ''vsphere://a/b/c'') CHR ''/'' \<noteq> 1"
    by (simp add: providerPrefix_def)
  have n: "CHR ''/'' \<notin> set ''eu-1'' \<and> CHR ''/'' \<notin> set ''abc-123''" by simp
  from g have 1: "decodeProviderID ''garbage'' = Inr ([], [])"
    using decodeProviderID_total_malformed [of "''garbage''"] by blast
  from c have 2: "decodeProviderID ''vsphere://a/b/c'' = Inr ([], [])"
    using decodeProviderID_total_malformed [of "''vsphere://a/b/c''"] by blast
  from n have 3: "decodeProviderID (providerPrefix @ ''eu-1'' @ ''/'' @ ''abc-123'') = Inr (''eu-1'', ''abc-123'')"
    using decodeProviderID_total_malformed [of _ "''eu-1''" "''abc-123''"] by blast
  from g p c n 1 2 3 show ?thesis by blast
qed

text \<open>The remainder \<open>eu/\<close> has an empty second segment, and the identifier still
  decodes to the region \<open>eu\<close> rather than to two empty strings.\<close>

theorem decodeProviderID_empty_segment_counterexample:
  "HasPrefix ''vsphere://eu/'' providerPrefix \<and>
   \<not> two_nonempty_segments (drop (length providerPrefix) ''vsphere://eu/'') \<and>
   decodeProviderID ''vsphere://eu/'' = Inr (''eu'', []) \<and>
   decodeProviderID ''vsphere://eu/'' \<noteq> Inr ([], [])"
  by code_simp

section \<open>Properties of the tag loops\<close>

lemma tagKeys_last:
  "tagKeys matches ks (clusterName, nodeRole) =
     (last (clusterName # filter (\<lambda>k. matches k ''kubernetes.io/cluster/'') ks),
      last (nodeRole # filter (\<lambda>k. \<not> matches k ''kubernetes.io/cluster/''
                                  \<and> matches k ''kubernetes.io/role/'') ks))"
  by (induction ks arbitrary: clusterName nodeRole) auto

lemma HasPrefix_nonempty: "HasPrefix k (c # pre) \<Longrightarrow> k \<noteq> []"
  by (auto simp: HasPrefix_def)

lemma Contains_nonempty: "Contains k (c # sub) \<Longrightarrow> k \<noteq> []"
  by (cases k) auto

lemma HasPrefix_cluster_not_role:
  "HasPrefix k ''kubernetes.io/cluster/'' \<Longrightarrow> \<not> HasPrefix k ''kubernetes.io/role/''"
proof
  assume c: "HasPrefix k ''kubernetes.io/cluster/''" and r: "HasPrefix k ''kubernetes.io/role/''"
  from c have "k = ''kubernetes.io/cluster/'' @ drop (length ''kubernetes.io/cluster/'') k"
    by (rule HasPrefix_D)
  then obtain rest where "k = ''kubernetes.io/cluster/'' @ rest" ..
  with r show False by (simp add: HasPrefix_def)
qed

lemma last_filter_nonempty:
  assumes "\<And>k. P k \<Longrightarrow> k \<noteq> []"
  shows "last ([] # filter P ks) \<noteq> [] \<longleftrightarrow> (\<exists>k\<in>set ks. P k)"
proof (cases "filter P ks = []")
  case True
  then show ?thesis by (auto simp: filter_empty_conv)
next
  case False
  then have "last (filter P ks) \<in> set (filter P ks)" by (rule last_in_set)
  then have "P (last (filter P ks))" by simp
  then have "last (filter P ks) \<noteq> []" by (rule assms)
  moreover from False have "\<exists>k\<in>set ks. P k" by (auto simp: filter_empty_conv)
  ultimately show ?thesis using False by simp
qed

lemma ListMachines_keys_cluster:
  "fst (tagKeys HasPrefix ks ([], [])) \<noteq> [] \<longleftrightarrow> (\<exists>k\<in>set ks. HasPrefix k ''kubernetes.io/cluster/'')"
  unfolding tagKeys_last fst_conv
  by (rule last_filter_nonempty) (rule HasPrefix_nonempty)

lemma ListMachines_keys_role:
  "snd (tagKeys HasPrefix ks ([], [])) \<noteq> [] \<longleftrightarrow> (\<exists>k\<in>set ks. HasPrefix k ''kubernetes.io/role/'')"
proof -
  have "snd (tagKeys HasPrefix ks ([], [])) \<noteq> [] \<longleftrightarrow>
        (\<exists>k\<in>set ks. \<not> HasPrefix k ''kubernetes.io/cluster/'' \<and> HasPrefix k ''kubernetes.io/role/'')"
    unfolding tagKeys_last snd_conv
    by (rule last_filter_nonempty) (auto dest: HasPrefix_nonempty)
  then show ?thesis using HasPrefix_cluster_not_role by blast
qed

lemma validateSpecTags_keys_cluster:
  "fst (tagKeys Contains ks ([], [])) \<noteq> [] \<longleftrightarrow> (\<exists>k\<in>set ks. Contains k ''kubernetes.io/cluster/'')"
  unfolding tagKeys_last fst_conv
  by (rule last_filter_nonempty) (rule Contains_nonempty)

lemma validateSpecTags_keys_role:
  "snd (tagKeys Contains ks ([], [])) \<noteq> [] \<longleftrightarrow>
     (\<exists>k\<in>set ks. \<not> Contains k ''kubernetes.io/cluster/'' \<and> Contains k ''kubernetes.io/role/'')"
  unfolding tagKeys_last snd_conv
  by (rule last_filter_nonempty) (auto dest: Contains_nonempty)

lemma set_validateSpecTags:
  "set (validateSpecTags ks tags) \<subseteq>
     {Errorf ''tag required of the form kubernetes.io/cluster/****'',
      Errorf ''tag required of the form kubernetes.io/role/****''}"
  by (auto simp: validateSpecTags_def split: prod.splits if_splits)


section \<open>Properties of validation\<close>

text \<open>
  C8. \<open>ValidateVsphereProviderSpec\<close> reports the error that a compute placement is
  required exactly for the specifications in which \<open>ComputeCluster\<close>,
  \<open>ResourcePool\<close> and \<open>HostSystem\<close> are all empty.
\<close>

theorem ValidateVsphereProviderSpec_compute_placement:
  "Errorf ''either computeCluster or resourcePool or hostSystem field is required''
     \<in> set (ValidateVsphereProviderSpec ks spec secrets)
   \<longleftrightarrow> ComputeCluster spec = [] \<and> ResourcePool spec = [] \<and> HostSystem spec = []"
proof -
  have "Errorf ''either computeCluster or resourcePool or hostSystem field is required''
          \<notin> set (validateSpecTags ks (Tags spec))"
    using set_validateSpecTags [of ks "Tags spec"] by auto
  moreover have "Errorf ''either computeCluster or resourcePool or hostSystem field is required''
          \<notin> set (validateSecrets secrets)"
    by (simp add: validateSecrets_def)
  ultimately show ?thesis
    by (auto simp: ValidateVsphereProviderSpec_def)
qed

theorem ValidateVsphereProviderSpec_compute_placement_witness:
  "Errorf ''either computeCluster or resourcePool or hostSystem field is required''
     \<notin> set (ValidateVsphereProviderSpec example_keys example_spec example_secrets)
   \<and> Errorf ''either computeCluster or resourcePool or hostSystem field is required''
     \<in> set (ValidateVsphereProviderSpec example_keys (example_spec\<lparr>ComputeCluster := []\<rparr>) example_secrets)"
  using ValidateVsphereProviderSpec_compute_placement [of example_keys example_spec example_secrets]
    ValidateVsphereProviderSpec_compute_placement
      [of example_keys "example_spec\<lparr>ComputeCluster := []\<rparr>" example_secrets]
  by (simp add: example_spec_def)


section \<open>Properties of the lifecycle operations\<close>

lemma createVsphereClient_Inr:
  assumes "createVsphereClient pf secrets = (pf1, Inr client)"
  shows "pf1 = called OpenSession pf"
  using assms
  by (auto simp: createVsphereClient_def NewClient_def split: option.splits)

text \<open>When the session cannot be opened, every operation returns that error.\<close>

lemma operations_without_session:
  assumes "createVsphereClient pf secrets = (pf1, Inl err)"
  shows "DeleteMachine pf machineName providerID spec secrets = (pf1, Inr ([], Some err))"
    and "ShutDownMachine pf machineName providerID spec secrets = (pf1, Inr ([], Some err))"
    and "GetMachineStatus pf machineName providerID spec secrets = (pf1, Inr ([], Some err))"
    and "ListMachines ks pf spec secrets = (pf1, Inr (None, Some err))"
  using assms
  by (simp_all add: DeleteMachine_def ShutDownMachine_def GetMachineStatus_def ListMachines_def)

lemma createVsphereClient_calls:
  "createVsphereClient (pf\<lparr>calls := cs\<rparr>) secrets =
     (case createVsphereClient pf secrets of
        (pf1, r) \<Rightarrow> (pf1\<lparr>calls := cs @ drop (length (calls pf)) (calls pf1)\<rparr>, r))"
  by (simp add: createVsphereClient_def NewClient_def called_def split: option.splits)

lemma scope_calls [simp]: "scope (pf\<lparr>calls := cs\<rparr>) spec = scope pf spec"
  by (simp add: scope_def)

lemma scope_called [simp]: "scope (called c pf) spec = scope pf spec"
  by (simp add: called_def)

lemma scan_error_called [simp]: "scan_error (called c pf) spec = scan_error pf spec"
  by (simp add: called_def)

lemma ListMachines_tags_absent:
  assumes "createVsphereClient pf secrets = (pf1, Inr client)"
    and "(\<forall>k\<in>set ks. \<not> HasPrefix k ''kubernetes.io/cluster/'')
         \<or> (\<forall>k\<in>set ks. \<not> HasPrefix k ''kubernetes.io/role/'')"
  shows "ListMachines ks pf spec secrets =
           (called Close (called OpenSession pf), Inr (Some Map.empty, None))"
proof -
  obtain c r where cr: "tagKeys HasPrefix ks ([], []) = (c, r)" by (cases "tagKeys HasPrefix ks ([], [])")
  from assms(2) have "c = [] \<or> r = []"
    using ListMachines_keys_cluster [of ks] ListMachines_keys_role [of ks] cr by auto
  moreover have "pf1 = called OpenSession pf" using assms(1) by (rule createVsphereClient_Inr)
  ultimately show ?thesis using assms(1) cr
    by (auto simp: ListMachines_def defer_Logout_def Logout_def)
qed

subsection \<open>The example platform\<close>

lemma example_session:
  "createVsphereClient example_platform example_secrets =
     (called OpenSession example_platform, Inr (Client ''https://vcenter.local/sdk'' ''admin''))"
  by (simp add: createVsphereClient_def NewClient_def example_platform_def example_secrets_def)

lemma example_range_order: "range_order (Tags example_spec) example_keys"
  by (auto simp: range_order_def example_spec_def example_keys_def)

lemma example_scope: "scope example_platform spec = [machine_a, machine_b, machine_c]"
  by (simp add: scope_def example_platform_def)

lemma example_scan_error: "scan_error example_platform spec = None"
  by (simp add: example_platform_def)

lemma example_custom_fields:
  "custom_fields (called c example_platform) =
        [\<lparr>def_Key = 1, def_Name = ''kubernetes.io/cluster/a''\<rparr>,
         \<lparr>def_Key = 2, def_Name = ''kubernetes.io/role/node''\<rparr>,
         \<lparr>def_Key = 3, def_Name = ''kubernetes.io/cluster/b''\<rparr>,
         \<lparr>def_Key = 4, def_Name = ''kubernetes.io/role/worker''\<rparr>]"
  by (simp add: called_def example_platform_def)

lemma example_ListMachines:
  "snd (ListMachines example_keys example_platform example_spec example_secrets)
  = Inr (Some [''vsphere://eu-1/uuid-a'' \<mapsto> ''machine-a''], None)"
  by (simp add: ListMachines_def example_session example_keys_def HasPrefix_def defer_Logout_def
     visitVirtualMachines_def example_scope example_scan_error example_custom_fields
     ListMachines_visitor_def
     machine_a_def machine_b_def machine_c_def example_spec_def encodeProviderID_def providerPrefix_def)



text \<open>
  C6. When the session opens and the tags of the specification have no key with the
  prefix \<open>kubernetes.io/cluster/\<close> or no key with the prefix
  \<open>kubernetes.io/role/\<close>, \<open>ListMachines\<close> returns the empty map and no error; it
  opens and closes the session and makes no other call, so no scan takes place.
\<close>

theorem ListMachines_without_ClusterRoleTags:
  assumes "range_order (Tags spec) ks"
    and "createVsphereClient pf secrets = (pf1, Inr client)"
    and "(\<forall>k\<in>dom (Tags spec). \<not> HasPrefix k ''kubernetes.io/cluster/'')
         \<or> (\<forall>k\<in>dom (Tags spec). \<not> HasPrefix k ''kubernetes.io/role/'')"
  shows "snd (ListMachines ks pf spec secrets) = Inr (Some Map.empty, None)
         \<and> calls (fst (ListMachines ks pf spec secrets)) = calls pf @ [OpenSession, Close]
         \<and> inventory (fst (ListMachines ks pf spec secrets)) = inventory pf"
proof -
  from assms(1) have "set ks = dom (Tags spec)" by (simp add: range_order_def)
  with assms(3) have "(\<forall>k\<in>set ks. \<not> HasPrefix k ''kubernetes.io/cluster/'')
         \<or> (\<forall>k\<in>set ks. \<not> HasPrefix k ''kubernetes.io/role/'')" by simp
  with assms(2) have "ListMachines ks pf spec secrets =
           (called Close (called OpenSession pf), Inr (Some Map.empty, None))"
    by (rule ListMachines_tags_absent)
  then show ?thesis by (simp add: called_def)
qed


theorem ListMachines_without_ClusterRoleTags_witness:
  "range_order (Tags (example_spec\<lparr>Tags := [''kubernetes.io/cluster/a'' \<mapsto> ''1'']\<rparr>))
     [''kubernetes.io/cluster/a'']
   \<and> dom (Tags (example_spec\<lparr>Tags := [''kubernetes.io/cluster/a'' \<mapsto> ''1'']\<rparr>))
       = {''kubernetes.io/cluster/a''}
   \<and> \<not> HasPrefix ''kubernetes.io/cluster/a'' ''kubernetes.io/role/''
   \<and> snd (ListMachines [''kubernetes.io/cluster/a''] example_platform
            (example_spec\<lparr>Tags := [''kubernetes.io/cluster/a'' \<mapsto> ''1'']\<rparr>) example_secrets)
       = Inr (Some Map.empty, None)
   \<and> calls (fst (ListMachines [''kubernetes.io/cluster/a''] example_platform
            (example_spec\<lparr>Tags := [''kubernetes.io/cluster/a'' \<mapsto> ''1'']\<rparr>) example_secrets))
       = [OpenSession, Close]"
proof -
  let ?spec = "example_spec\<lparr>Tags := [''kubernetes.io/cluster/a'' \<mapsto> ''1'']\<rparr>"
  have r: "range_order (Tags ?spec) [''kubernetes.io/cluster/a'']"
    by (simp add: range_order_def)
  have t: "\<forall>k\<in>dom (Tags ?spec). \<not> HasPrefix k ''kubernetes.io/role/''"
    by (simp add: HasPrefix_def)
  have c: "calls example_platform = []" by (simp add: example_platform_def)
  have d: "dom (Tags ?spec) = {''kubernetes.io/cluster/a''}" by simp
  have h: "\<not> HasPrefix ''kubernetes.io/cluster/a'' ''kubernetes.io/role/''"
    by (simp add: HasPrefix_def)
  from r t c d h show ?thesis
    using ListMachines_without_ClusterRoleTags [OF r example_session]
    by simp
qed

lemma validateSpecTags_no_errors:
  "validateSpecTags ks tags = [] \<longleftrightarrow>
     (\<exists>k\<in>set ks. Contains k ''kubernetes.io/cluster/'')
     \<and> (\<exists>k\<in>set ks. \<not> Contains k ''kubernetes.io/cluster/'' \<and> Contains k ''kubernetes.io/role/'')"
proof -
  obtain c r where cr: "tagKeys Contains ks ([], []) = (c, r)" by (cases "tagKeys Contains ks ([], [])")
  have "validateSpecTags ks tags = [] \<longleftrightarrow> c \<noteq> [] \<and> r \<noteq> []"
    by (simp add: validateSpecTags_def cr)
  then show ?thesis
    using validateSpecTags_keys_cluster [of ks] validateSpecTags_keys_role [of ks] cr by simp
qed

lemma dom_interior_tags: "dom interior_tags = {''x-kubernetes.io/cluster/c'', ''x-kubernetes.io/role/node''}"
  by (auto simp: interior_tags_def)

lemma interior_Contains:
  "Contains ''x-kubernetes.io/cluster/c'' ''kubernetes.io/cluster/''"
  "\<not> Contains ''x-kubernetes.io/role/node'' ''kubernetes.io/cluster/''"
  "Contains ''x-kubernetes.io/role/node'' ''kubernetes.io/role/''"
  by code_simp+

lemma interior_HasPrefix:
  "\<not> HasPrefix ''x-kubernetes.io/cluster/c'' ''kubernetes.io/cluster/''"
  "\<not> HasPrefix ''x-kubernetes.io/role/node'' ''kubernetes.io/cluster/''"
  by code_simp+

lemma ListMachines_calls:
  assumes "createVsphereClient pf secrets = (pf1, Inr client)"
  shows "calls (fst (ListMachines ks pf spec secrets)) =
           calls pf @ (if (\<exists>k\<in>set ks. HasPrefix k ''kubernetes.io/cluster/'')
                          \<and> (\<exists>k\<in>set ks. HasPrefix k ''kubernetes.io/role/'')
                       then [OpenSession, ScanTaggedMachines, Close]
                       else [OpenSession, Close])"
proof -
  obtain c r where cr: "tagKeys HasPrefix ks ([], []) = (c, r)"
    by (cases "tagKeys HasPrefix ks ([], [])")
  have pf1: "pf1 = called OpenSession pf" using assms by (rule createVsphereClient_Inr)
  have both: "(\<exists>k\<in>set ks. HasPrefix k ''kubernetes.io/cluster/'')
               \<and> (\<exists>k\<in>set ks. HasPrefix k ''kubernetes.io/role/'') \<longleftrightarrow> c \<noteq> [] \<and> r \<noteq> []"
    using ListMachines_keys_cluster [of ks] ListMachines_keys_role [of ks] cr by simp
  show ?thesis
  proof (cases "c \<noteq> [] \<and> r \<noteq> []")
    case False
    then have "ListMachines ks pf spec secrets =
                 (called Close (called OpenSession pf), Inr (Some Map.empty, None))"
      using assms cr pf1 by (auto simp: ListMachines_def defer_Logout_def Logout_def)
    then show ?thesis using False both by (simp add: called_def)
  next
    case True
    obtain pf2 res where v: "visitVirtualMachines pf1 client spec
        (ListMachines_visitor c r spec) Map.empty = (pf2, res)"
      by (cases "visitVirtualMachines pf1 client spec (ListMachines_visitor c r spec) Map.empty")
    then have pf2: "pf2 = called ScanTaggedMachines pf1"
      by (simp add: visitVirtualMachines_def)
    have "fst (ListMachines ks pf spec secrets) = called Close pf2"
      using assms cr True v
      by (simp add: ListMachines_def defer_Logout_def Logout_def
          split: sum.split prod.split option.split)
    then show ?thesis using True both pf1 pf2 by (simp add: called_def)
  qed
qed

text \<open>
  C9. \<open>validateSpecTags\<close> reports no error exactly when some key contains the
  cluster pattern and some key without it contains the role pattern, wherever in the key.
  \<open>ListMachines\<close>, once the session is open, scans exactly when some key starts with the
  cluster prefix and some key starts with the role prefix, and returns the empty map
  otherwise. The tag map \<open>interior_tags\<close> passes the validation in every order of its
  keys, and for a specification with these tags \<open>ListMachines\<close> returns the empty map
  without a scan on every platform whose session opens.
\<close>

theorem validation_and_list_disagree:
  "(validateSpecTags ks tags = [] \<longleftrightarrow>
      (\<exists>k\<in>set ks. Contains k ''kubernetes.io/cluster/'')
      \<and> (\<exists>k\<in>set ks. \<not> Contains k ''kubernetes.io/cluster/'' \<and> Contains k ''kubernetes.io/role/''))
   \<and> (createVsphereClient pf secrets = (pf1, Inr client)
      \<longrightarrow> calls (fst (ListMachines ks pf spec secrets)) =
            calls pf @ (if (\<exists>k\<in>set ks. HasPrefix k ''kubernetes.io/cluster/'')
                           \<and> (\<exists>k\<in>set ks. HasPrefix k ''kubernetes.io/role/'')
                        then [OpenSession, ScanTaggedMachines, Close]
                        else [OpenSession, Close])
          \<and> (\<not> ((\<exists>k\<in>set ks. HasPrefix k ''kubernetes.io/cluster/'')
                  \<and> (\<exists>k\<in>set ks. HasPrefix k ''kubernetes.io/role/''))
             \<longrightarrow> snd (ListMachines ks pf spec secrets) = Inr (Some Map.empty, None)))
   \<and> (range_order interior_tags ks \<longrightarrow> validateSpecTags ks interior_tags = [])
   \<and> (range_order interior_tags ks \<and> Tags spec = interior_tags
        \<and> createVsphereClient pf secrets = (pf1, Inr client)
      \<longrightarrow> snd (ListMachines ks pf spec secrets) = Inr (Some Map.empty, None)
          \<and> calls (fst (ListMachines ks pf spec secrets)) = calls pf @ [OpenSession, Close])"
proof (intro conjI)
  show "validateSpecTags ks tags = [] \<longleftrightarrow>
      (\<exists>k\<in>set ks. Contains k ''kubernetes.io/cluster/'')
      \<and> (\<exists>k\<in>set ks. \<not> Contains k ''kubernetes.io/cluster/'' \<and> Contains k ''kubernetes.io/role/'')"
    by (rule validateSpecTags_no_errors)
next
  show "createVsphereClient pf secrets = (pf1, Inr client)
      \<longrightarrow> calls (fst (ListMachines ks pf spec secrets)) =
            calls pf @ (if (\<exists>k\<in>set ks. HasPrefix k ''kubernetes.io/cluster/'')
                           \<and> (\<exists>k\<in>set ks. HasPrefix k ''kubernetes.io/role/'')
                        then [OpenSession, ScanTaggedMachines, Close]
                        else [OpenSession, Close])
          \<and> (\<not> ((\<exists>k\<in>set ks. HasPrefix k ''kubernetes.io/cluster/'')
                  \<and> (\<exists>k\<in>set ks. HasPrefix k ''kubernetes.io/role/''))
             \<longrightarrow> snd (ListMachines ks pf spec secrets) = Inr (Some Map.empty, None))"
  proof (rule impI, rule conjI)
    assume s: "createVsphereClient pf secrets = (pf1, Inr client)"
    then show "calls (fst (ListMachines ks pf spec secrets)) =
            calls pf @ (if (\<exists>k\<in>set ks. HasPrefix k ''kubernetes.io/cluster/'')
                           \<and> (\<exists>k\<in>set ks. HasPrefix k ''kubernetes.io/role/'')
                        then [OpenSession, ScanTaggedMachines, Close]
                        else [OpenSession, Close])"
      by (rule ListMachines_calls)
    show "\<not> ((\<exists>k\<in>set ks. HasPrefix k ''kubernetes.io/cluster/'')
                  \<and> (\<exists>k\<in>set ks. HasPrefix k ''kubernetes.io/role/''))
             \<longrightarrow> snd (ListMachines ks pf spec secrets) = Inr (Some Map.empty, None)"
    proof
      assume "\<not> ((\<exists>k\<in>set ks. HasPrefix k ''kubernetes.io/cluster/'')
                  \<and> (\<exists>k\<in>set ks. HasPrefix k ''kubernetes.io/role/''))"
      then have "(\<forall>k\<in>set ks. \<not> HasPrefix k ''kubernetes.io/cluster/'')
         \<or> (\<forall>k\<in>set ks. \<not> HasPrefix k ''kubernetes.io/role/'')" by simp
      with s have "ListMachines ks pf spec secrets =
             (called Close (called OpenSession pf), Inr (Some Map.empty, None))"
        by (rule ListMachines_tags_absent)
      then show "snd (ListMachines ks pf spec secrets) = Inr (Some Map.empty, None)" by simp
    qed
  qed
next
  show "range_order interior_tags ks \<longrightarrow> validateSpecTags ks interior_tags = []"
  proof
    assume "range_order interior_tags ks"
    then have ks: "set ks = {''x-kubernetes.io/cluster/c'', ''x-kubernetes.io/role/node''}"
      by (simp add: range_order_def dom_interior_tags)
    show "validateSpecTags ks interior_tags = []"
      unfolding validateSpecTags_no_errors ks using interior_Contains by blast
  qed
next
  show "range_order interior_tags ks \<and> Tags spec = interior_tags
        \<and> createVsphereClient pf secrets = (pf1, Inr client)
      \<longrightarrow> snd (ListMachines ks pf spec secrets) = Inr (Some Map.empty, None)
          \<and> calls (fst (ListMachines ks pf spec secrets)) = calls pf @ [OpenSession, Close]"
  proof
    assume a: "range_order interior_tags ks \<and> Tags spec = interior_tags
        \<and> createVsphereClient pf secrets = (pf1, Inr client)"
    then have ks: "set ks = {''x-kubernetes.io/cluster/c'', ''x-kubernetes.io/role/node''}"
      by (simp add: range_order_def dom_interior_tags)
    have "\<forall>k\<in>set ks. \<not> HasPrefix k ''kubernetes.io/cluster/''"
      unfolding ks using interior_HasPrefix by blast
    then have "ListMachines ks pf spec secrets =
             (called Close (called OpenSession pf), Inr (Some Map.empty, None))"
      using a ListMachines_tags_absent by blast
    then show "snd (ListMachines ks pf spec secrets) = Inr (Some Map.empty, None)
          \<and> calls (fst (ListMachines ks pf spec secrets)) = calls pf @ [OpenSession, Close]"
      by (simp add: called_def)
  qed
qed

lemma example_calls: "calls example_platform = []"
  by (simp add: example_platform_def)

theorem validation_and_list_disagree_witness:
  "range_order interior_tags [''x-kubernetes.io/role/node'', ''x-kubernetes.io/cluster/c'']
   \<and> validateSpecTags [''x-kubernetes.io/role/node'', ''x-kubernetes.io/cluster/c''] interior_tags = []
   \<and> Tags (example_spec\<lparr>Tags := interior_tags\<rparr>) = interior_tags
   \<and> createVsphereClient example_platform example_secrets
       = (called OpenSession example_platform, Inr (Client ''https://vcenter.local/sdk'' ''admin''))
   \<and> snd (ListMachines [''x-kubernetes.io/role/node'', ''x-kubernetes.io/cluster/c'']
            example_platform (example_spec\<lparr>Tags := interior_tags\<rparr>) example_secrets)
       = Inr (Some Map.empty, None)
   \<and> calls (fst (ListMachines [''x-kubernetes.io/role/node'', ''x-kubernetes.io/cluster/c'']
            example_platform (example_spec\<lparr>Tags := interior_tags\<rparr>) example_secrets))
       = [OpenSession, Close]
   \<and> calls (fst (ListMachines example_keys example_platform example_spec example_secrets))
       = [OpenSession, ScanTaggedMachines, Close]"
proof -
  let ?ks = "[''x-kubernetes.io/role/node'', ''x-kubernetes.io/cluster/c'']"
  let ?spec = "example_spec\<lparr>Tags := interior_tags\<rparr>"
  note t = validation_and_list_disagree [of ?ks interior_tags example_platform example_secrets
      "called OpenSession example_platform" "Client ''https://vcenter.local/sdk'' ''admin''" ?spec]
  note u = validation_and_list_disagree [of example_keys interior_tags example_platform
      example_secrets "called OpenSession example_platform"
      "Client ''https://vcenter.local/sdk'' ''admin''" example_spec]
  have r: "range_order interior_tags ?ks"
    by (auto simp: range_order_def dom_interior_tags)
  have v: "validateSpecTags ?ks interior_tags = []"
    by (rule t [THEN conjunct2, THEN conjunct2, THEN conjunct1, THEN mp]) (rule r)
  have g: "Tags ?spec = interior_tags" by simp
  have l: "snd (ListMachines ?ks example_platform ?spec example_secrets)
       = Inr (Some Map.empty, None)
     \<and> calls (fst (ListMachines ?ks example_platform ?spec example_secrets))
       = calls example_platform @ [OpenSession, Close]"
    by (rule t [THEN conjunct2, THEN conjunct2, THEN conjunct2, THEN mp])
       (intro conjI r g example_session)
  have "calls (fst (ListMachines example_keys example_platform example_spec example_secrets)) =
            calls example_platform @
              (if (\<exists>k\<in>set example_keys. HasPrefix k ''kubernetes.io/cluster/'')
                           \<and> (\<exists>k\<in>set example_keys. HasPrefix k ''kubernetes.io/role/'')
                        then [OpenSession, ScanTaggedMachines, Close]
                        else [OpenSession, Close])"
    by (rule u [THEN conjunct2, THEN conjunct1, THEN mp, THEN conjunct1]) (rule example_session)
  then have s: "calls (fst (ListMachines example_keys example_platform example_spec example_secrets))
       = [OpenSession, ScanTaggedMachines, Close]"
    by (simp add: example_calls example_keys_def HasPrefix_def)
  from l have l1: "snd (ListMachines ?ks example_platform ?spec example_secrets)
       = Inr (Some Map.empty, None)"
    and l2: "calls (fst (ListMachines ?ks example_platform ?spec example_secrets))
       = [OpenSession, Close]"
    by (simp_all add: example_calls)
  show ?thesis
    by (intro conjI r v g example_session l1 l2 s)
qed

subsection \<open>Deleting an absent machine\<close>

lemma discover_absent:
  assumes "machineID = [] \<or> (\<forall>vm\<in>set (scope pf spec). UUID vm \<noteq> machineID)"
    and "\<forall>vm\<in>set (scope pf spec). Name (entity vm) \<noteq> machineName"
  shows "discover pf spec machineName machineID =
           (pf\<lparr>calls := calls pf @ (if machineID = [] then [] else [LookupByNativeId machineID])
                                 @ [LookupByName machineName]\<rparr>, Inr None)"
proof -
  have n: "filter (\<lambda>vm. Name (entity vm) = machineName) (scope pf spec) = []"
    using assms(2) by (auto simp: filter_empty_conv)
  show ?thesis
  proof (cases "machineID = []")
    case True
    then show ?thesis by (simp add: discover_def lookupByName_def n called_def)
  next
    case False
    with assms(1) have "find (\<lambda>vm. UUID vm = machineID) (scope pf spec) = None"
      by (auto simp: find_None_iff)
    then show ?thesis using False
      by (simp add: discover_def lookupByNativeId_def lookupByName_def n called_def)
  qed
qed

lemma DeleteMachine_absent:
  assumes "createVsphereClient pf secrets = (pf1, Inr client)"
    and "decodeProviderID providerID = Inr (region, machineID)"
    and "machineID = [] \<or> (\<forall>vm\<in>set (scope pf spec). UUID vm \<noteq> machineID)"
    and "\<forall>vm\<in>set (scope pf spec). Name (entity vm) \<noteq> machineName"
  shows "DeleteMachine pf machineName providerID spec secrets =
           (pf\<lparr>calls := calls pf @ [OpenSession]
                   @ (if machineID = [] then [] else [LookupByNativeId machineID])
                   @ [LookupByName machineName, Close]\<rparr>, Inr ([], None))"
proof -
  have pf1: "pf1 = called OpenSession pf" using assms(1) by (rule createVsphereClient_Inr)
  have "discover pf1 spec machineName machineID =
           (pf1\<lparr>calls := calls pf1 @ (if machineID = [] then [] else [LookupByNativeId machineID])
                                 @ [LookupByName machineName]\<rparr>, Inr None)"
    by (rule discover_absent) (use assms(3,4) pf1 in simp_all)
  then show ?thesis using assms(1,2) pf1
    by (simp add: DeleteMachine_def deleteVM_def defer_Logout_def Logout_def called_def
        encodeProviderID_def)
qed

text \<open>
  C5. When the session opens and the scope holds no machine with the native id decoded
  from the identifier nor with the name, \<open>DeleteMachine\<close> returns the empty identifier
  and no error and leaves the inventory as it is, and a second call on the platform that
  the first call left does the same.
\<close>

theorem DeleteMachine_absent_idempotent:
  assumes "createVsphereClient pf secrets = (pf1, Inr client)"
    and "decodeProviderID providerID = Inr (region, machineID)"
    and "machineID = [] \<or> (\<forall>vm\<in>set (scope pf spec). UUID vm \<noteq> machineID)"
    and "\<forall>vm\<in>set (scope pf spec). Name (entity vm) \<noteq> machineName"
    and "DeleteMachine pf machineName providerID spec secrets = (pf2, result)"
  shows "result = Inr ([], None)
         \<and> inventory pf2 = inventory pf
         \<and> snd (DeleteMachine pf2 machineName providerID spec secrets) = Inr ([], None)"
proof -
  let ?cs = "calls pf @ [OpenSession]
                   @ (if machineID = [] then [] else [LookupByNativeId machineID])
                   @ [LookupByName machineName, Close]"
  have first: "DeleteMachine pf machineName providerID spec secrets =
                 (pf\<lparr>calls := ?cs\<rparr>, Inr ([], None))"
    using assms(1-4) by (rule DeleteMachine_absent)
  with assms(5) have pf2: "pf2 = pf\<lparr>calls := ?cs\<rparr>" and r: "result = Inr ([], None)" by simp_all
  have "createVsphereClient pf2 secrets = (called OpenSession pf2, Inr client)"
    using assms(1) createVsphereClient_Inr [OF assms(1)]
    unfolding pf2 by (simp add: createVsphereClient_calls called_def)
  moreover have "machineID = [] \<or> (\<forall>vm\<in>set (scope pf2 spec). UUID vm \<noteq> machineID)"
    using assms(3) by (simp add: pf2)
  moreover have "\<forall>vm\<in>set (scope pf2 spec). Name (entity vm) \<noteq> machineName"
    using assms(4) by (simp add: pf2)
  ultimately have "snd (DeleteMachine pf2 machineName providerID spec secrets) = Inr ([], None)"
    using assms(2) DeleteMachine_absent [of pf2 secrets _ client providerID region machineID spec machineName]
    by simp
  with r pf2 show ?thesis by simp
qed


lemma example_decode_z: "decodeProviderID ''vsphere://eu-1/uuid-z'' = Inr (''eu-1'', ''uuid-z'')"
  by code_simp

theorem DeleteMachine_absent_idempotent_witness:
  "createVsphereClient example_platform example_secrets
     = (called OpenSession example_platform, Inr (Client ''https://vcenter.local/sdk'' ''admin''))
   \<and> decodeProviderID ''vsphere://eu-1/uuid-z'' = Inr (''eu-1'', ''uuid-z'')
   \<and> map UUID (scope example_platform example_spec) = [''uuid-a'', ''uuid-b'', ''uuid-c'']
   \<and> map (\<lambda>vm. Name (entity vm)) (scope example_platform example_spec)
       = [''machine-a'', ''machine-b'', ''machine-c'']
   \<and> snd (DeleteMachine example_platform ''machine-z'' ''vsphere://eu-1/uuid-z'' example_spec
            example_secrets) = Inr ([], None)
   \<and> snd (DeleteMachine
            (fst (DeleteMachine example_platform ''machine-z'' ''vsphere://eu-1/uuid-z''
                    example_spec example_secrets))
            ''machine-z'' ''vsphere://eu-1/uuid-z'' example_spec example_secrets) = Inr ([], None)"
proof -
  have u: "''uuid-z'' = [] \<or> (\<forall>vm\<in>set (scope example_platform example_spec). UUID vm \<noteq> ''uuid-z'')"
    by (simp add: example_scope machine_a_def machine_b_def machine_c_def)
  have n: "\<forall>vm\<in>set (scope example_platform example_spec). Name (entity vm) \<noteq> ''machine-z''"
    by (simp add: example_scope machine_a_def machine_b_def machine_c_def)
  have p: "DeleteMachine example_platform ''machine-z'' ''vsphere://eu-1/uuid-z'' example_spec
            example_secrets
          = (fst (DeleteMachine example_platform ''machine-z'' ''vsphere://eu-1/uuid-z''
                    example_spec example_secrets),
             snd (DeleteMachine example_platform ''machine-z'' ''vsphere://eu-1/uuid-z''
                    example_spec example_secrets))"
    by simp
  have ids: "map UUID (scope example_platform example_spec) = [''uuid-a'', ''uuid-b'', ''uuid-c'']"
    by (simp add: example_scope machine_a_def machine_b_def machine_c_def)
  have names: "map (\<lambda>vm. Name (entity vm)) (scope example_platform example_spec)
       = [''machine-a'', ''machine-b'', ''machine-c'']"
    by (simp add: example_scope machine_a_def machine_b_def machine_c_def)
  from ids names show ?thesis
    using DeleteMachine_absent_idempotent [OF example_session example_decode_z u n p]
      example_session example_decode_z
    by simp
qed

lemma encodeProviderID_shape:
  "encodeProviderID region machineID = []
   \<or> (machineID \<noteq> [] \<and> encodeProviderID region machineID = providerPrefix @ region @ ''/'' @ machineID)"
  by (simp add: encodeProviderID_def)

lemma DeleteMachine_found:
  assumes "snd (DeleteMachine pf machineName providerID spec secrets) = Inr (found, err)"
  shows "found = [] \<or> (\<exists>foundMachineID. foundMachineID \<noteq> []
          \<and> found = providerPrefix @ Region spec @ ''/'' @ foundMachineID)"
proof -
  obtain pf1 r where c: "createVsphereClient pf secrets = (pf1, r)"
    by (cases "createVsphereClient pf secrets")
  obtain region machineID where d: "decodeProviderID providerID = Inr (region, machineID)"
    using decodeProviderID_total by blast
  show ?thesis
  proof (cases r)
    case (Inl e)
    with assms c show ?thesis by (simp add: DeleteMachine_def)
  next
    case (Inr client)
    obtain pf2 x e where h: "deleteVM pf1 client spec machineName machineID = (pf2, x, e)"
      by (cases "deleteVM pf1 client spec machineName machineID")
    have "found = [] \<or> found = encodeProviderID (Region spec) x"
      using assms c d Inr h
      by (cases e) (simp_all add: DeleteMachine_def defer_Logout_def)
    then show ?thesis using encodeProviderID_shape [of "Region spec" "x"] by auto
  qed
qed

lemma ShutDownMachine_found:
  assumes "snd (ShutDownMachine pf machineName providerID spec secrets) = Inr (found, err)"
  shows "found = [] \<or> (\<exists>foundMachineID. foundMachineID \<noteq> []
          \<and> found = providerPrefix @ Region spec @ ''/'' @ foundMachineID)"
proof -
  obtain pf1 r where c: "createVsphereClient pf secrets = (pf1, r)"
    by (cases "createVsphereClient pf secrets")
  obtain region machineID where d: "decodeProviderID providerID = Inr (region, machineID)"
    using decodeProviderID_total by blast
  show ?thesis
  proof (cases r)
    case (Inl e)
    with assms c show ?thesis by (simp add: ShutDownMachine_def)
  next
    case (Inr client)
    obtain pf2 x e where h: "shutDownVM pf1 client spec machineName machineID = (pf2, x, e)"
      by (cases "shutDownVM pf1 client spec machineName machineID")
    have "found = [] \<or> found = encodeProviderID (Region spec) x"
      using assms c d Inr h
      by (cases e) (simp_all add: ShutDownMachine_def defer_Logout_def)
    then show ?thesis using encodeProviderID_shape [of "Region spec" "x"] by auto
  qed
qed

lemma GetMachineStatus_found:
  assumes "snd (GetMachineStatus pf machineName providerID spec secrets) = Inr (found, err)"
  shows "found = [] \<or> (\<exists>foundMachineID. foundMachineID \<noteq> []
          \<and> found = providerPrefix @ Region spec @ ''/'' @ foundMachineID)"
proof -
  obtain pf1 r where c: "createVsphereClient pf secrets = (pf1, r)"
    by (cases "createVsphereClient pf secrets")
  obtain region machineID where d: "decodeProviderID providerID = Inr (region, machineID)"
    using decodeProviderID_total by blast
  show ?thesis
  proof (cases r)
    case (Inl e)
    with assms c show ?thesis by (simp add: GetMachineStatus_def)
  next
    case (Inr client)
    obtain pf2 x e where h: "findVM pf1 client spec machineName machineID = (pf2, x, e)"
      by (cases "findVM pf1 client spec machineName machineID")
    have "found = [] \<or> found = encodeProviderID (Region spec) (UUID (the x))"
      using assms c d Inr h
      by (cases e; cases x) (simp_all add: GetMachineStatus_def defer_Logout_def)
    then show ?thesis using encodeProviderID_shape [of "Region spec" "UUID (the x)"] by auto
  qed
qed
text \<open>
  C7. Two identifiers that decode to the same native id give the same results of
  \<open>DeleteMachine\<close>, \<open>ShutDownMachine\<close> and \<open>GetMachineStatus\<close>, whatever
  regions are embedded in them. An identifier that one of the three returns is empty or
  is made of the prefix, the region of the specification and a non-empty native id.
\<close>

theorem identifier_region_ignored:
  "(decodeProviderID providerID = Inr (region, machineID)
      \<and> decodeProviderID providerID' = Inr (region', machineID)
    \<longrightarrow> DeleteMachine pf machineName providerID spec secrets
          = DeleteMachine pf machineName providerID' spec secrets
        \<and> ShutDownMachine pf machineName providerID spec secrets
          = ShutDownMachine pf machineName providerID' spec secrets
        \<and> GetMachineStatus pf machineName providerID spec secrets
          = GetMachineStatus pf machineName providerID' spec secrets)
   \<and> (snd (DeleteMachine pf machineName providerID spec secrets) = Inr (found, err)
        \<or> snd (ShutDownMachine pf machineName providerID spec secrets) = Inr (found, err)
        \<or> snd (GetMachineStatus pf machineName providerID spec secrets) = Inr (found, err)
      \<longrightarrow> found = [] \<or> (\<exists>foundMachineID. foundMachineID \<noteq> []
             \<and> found = providerPrefix @ Region spec @ ''/'' @ foundMachineID))"
proof (rule conjI; rule impI)
  assume d: "decodeProviderID providerID = Inr (region, machineID)
      \<and> decodeProviderID providerID' = Inr (region', machineID)"
  obtain pf1 r where c: "createVsphereClient pf secrets = (pf1, r)"
    by (cases "createVsphereClient pf secrets")
  show "DeleteMachine pf machineName providerID spec secrets
          = DeleteMachine pf machineName providerID' spec secrets
        \<and> ShutDownMachine pf machineName providerID spec secrets
          = ShutDownMachine pf machineName providerID' spec secrets
        \<and> GetMachineStatus pf machineName providerID spec secrets
          = GetMachineStatus pf machineName providerID' spec secrets"
    using d c
    by (cases r) (simp_all add: DeleteMachine_def ShutDownMachine_def GetMachineStatus_def)
next
  assume "snd (DeleteMachine pf machineName providerID spec secrets) = Inr (found, err)
        \<or> snd (ShutDownMachine pf machineName providerID spec secrets) = Inr (found, err)
        \<or> snd (GetMachineStatus pf machineName providerID spec secrets) = Inr (found, err)"
  then show "found = [] \<or> (\<exists>foundMachineID. foundMachineID \<noteq> []
             \<and> found = providerPrefix @ Region spec @ ''/'' @ foundMachineID)"
  proof (elim disjE)
    assume "snd (DeleteMachine pf machineName providerID spec secrets) = Inr (found, err)"
    then show ?thesis by (rule DeleteMachine_found)
  next
    assume "snd (ShutDownMachine pf machineName providerID spec secrets) = Inr (found, err)"
    then show ?thesis by (rule ShutDownMachine_found)
  next
    assume "snd (GetMachineStatus pf machineName providerID spec secrets) = Inr (found, err)"
    then show ?thesis by (rule GetMachineStatus_found)
  qed
qed

lemma example_decode_a: "decodeProviderID ''vsphere://eu-1/uuid-a'' = Inr (''eu-1'', ''uuid-a'')"
  by code_simp

lemma example_decode_a': "decodeProviderID ''vsphere://us-2/uuid-a'' = Inr (''us-2'', ''uuid-a'')"
  by code_simp

lemma example_GetMachineStatus:
  "snd (GetMachineStatus example_platform ''machine-a'' ''vsphere://us-2/uuid-a'' example_spec
          example_secrets) = Inr (''vsphere://eu-1/uuid-a'', None)"
  by (simp add: GetMachineStatus_def example_session example_decode_a' defer_Logout_def findVM_def
      discover_def lookupByNativeId_def example_scope machine_a_def encodeProviderID_def
      providerPrefix_def example_spec_def)

theorem identifier_region_ignored_witness:
  "decodeProviderID ''vsphere://eu-1/uuid-a'' = Inr (''eu-1'', ''uuid-a'')
   \<and> decodeProviderID ''vsphere://us-2/uuid-a'' = Inr (''us-2'', ''uuid-a'')
   \<and> DeleteMachine example_platform ''machine-a'' ''vsphere://eu-1/uuid-a'' example_spec example_secrets
     = DeleteMachine example_platform ''machine-a'' ''vsphere://us-2/uuid-a'' example_spec example_secrets
   \<and> ShutDownMachine example_platform ''machine-a'' ''vsphere://eu-1/uuid-a'' example_spec example_secrets
     = ShutDownMachine example_platform ''machine-a'' ''vsphere://us-2/uuid-a'' example_spec example_secrets
   \<and> GetMachineStatus example_platform ''machine-a'' ''vsphere://eu-1/uuid-a'' example_spec example_secrets
     = GetMachineStatus example_platform ''machine-a'' ''vsphere://us-2/uuid-a'' example_spec example_secrets
   \<and> snd (GetMachineStatus example_platform ''machine-a'' ''vsphere://us-2/uuid-a'' example_spec
          example_secrets) = Inr (''vsphere://eu-1/uuid-a'', None)
   \<and> (\<exists>foundMachineID. foundMachineID \<noteq> []
        \<and> ''vsphere://eu-1/uuid-a'' = providerPrefix @ Region example_spec @ ''/'' @ foundMachineID)"
proof -
  note t = identifier_region_ignored
    [of "''vsphere://eu-1/uuid-a''" "''eu-1''" "''uuid-a''" "''vsphere://us-2/uuid-a''" "''us-2''"
        example_platform "''machine-a''" example_spec example_secrets
        "''vsphere://eu-1/uuid-a''" None]
  have same: "DeleteMachine example_platform ''machine-a'' ''vsphere://eu-1/uuid-a'' example_spec example_secrets
     = DeleteMachine example_platform ''machine-a'' ''vsphere://us-2/uuid-a'' example_spec example_secrets
   \<and> ShutDownMachine example_platform ''machine-a'' ''vsphere://eu-1/uuid-a'' example_spec example_secrets
     = ShutDownMachine example_platform ''machine-a'' ''vsphere://us-2/uuid-a'' example_spec example_secrets
   \<and> GetMachineStatus example_platform ''machine-a'' ''vsphere://eu-1/uuid-a'' example_spec example_secrets
     = GetMachineStatus example_platform ''machine-a'' ''vsphere://us-2/uuid-a'' example_spec example_secrets"
    by (rule t [THEN conjunct1, THEN mp]) (intro conjI example_decode_a example_decode_a')
  have "snd (GetMachineStatus example_platform ''machine-a'' ''vsphere://eu-1/uuid-a'' example_spec
          example_secrets) = Inr (''vsphere://eu-1/uuid-a'', None)"
    using same example_GetMachineStatus by simp
  then have g: "snd (DeleteMachine example_platform ''machine-a''
            ''vsphere://eu-1/uuid-a'' example_spec example_secrets) =
      Inr (''vsphere://eu-1/uuid-a'', None) \<or>
      snd (ShutDownMachine example_platform ''machine-a''
            ''vsphere://eu-1/uuid-a'' example_spec example_secrets) =
      Inr (''vsphere://eu-1/uuid-a'', None) \<or>
      snd (GetMachineStatus example_platform ''machine-a''
            ''vsphere://eu-1/uuid-a'' example_spec example_secrets) =
      Inr (''vsphere://eu-1/uuid-a'', None)" by simp
  have shape: "''vsphere://eu-1/uuid-a'' = [] \<or> (\<exists>foundMachineID. foundMachineID \<noteq> []
        \<and> ''vsphere://eu-1/uuid-a'' = providerPrefix @ Region example_spec @ ''/'' @ foundMachineID)"
    by (rule t [THEN conjunct2, THEN mp]) (rule g)
  from same shape example_decode_a example_decode_a' example_GetMachineStatus show ?thesis
    by simp
qed

subsection \<open>The scan of ListMachines\<close>

lemma matchTags_wellTyped:
  assumes "clusterName \<noteq> nodeRole"
  shows "wellTyped field cvs \<Longrightarrow>
     matchTags clusterName nodeRole field cvs (matchedCluster, matchedRole) =
       Inr (matchedCluster \<or> clusterName \<in> set (fieldNames field cvs),
            matchedRole \<or> nodeRole \<in> set (fieldNames field cvs))"
proof (induction cvs arbitrary: matchedCluster matchedRole)
  case Nil
  then show ?case by simp
next
  case (Cons cv cvs)
  show ?case
  proof (cases cv)
    case (CustomFieldValue key)
    with Cons.prems show ?thesis by simp
  next
    case (CustomFieldStringValue key val)
    with Cons.prems obtain d where d: "ByKey field key = Some d" and w: "wellTyped field cvs"
      by auto
    show ?thesis
      using assms by (auto simp: CustomFieldStringValue d Cons.IH [OF w])
  qed
qed

lemma matchTags_panics:
  "\<not> wellTyped field cvs \<Longrightarrow>
     \<exists>p. matchTags clusterName nodeRole field cvs (matchedCluster, matchedRole) = Inl p"
proof (induction cvs arbitrary: matchedCluster matchedRole)
  case Nil
  then show ?case by simp
next
  case (Cons cv cvs)
  show ?case
  proof (cases cv)
    case (CustomFieldValue key)
    then show ?thesis by simp
  next
    case (CustomFieldStringValue key val)
    show ?thesis
    proof (cases "ByKey field key")
      case None
      then show ?thesis by (simp add: CustomFieldStringValue)
    next
      case (Some d)
      with Cons.prems CustomFieldStringValue have "\<not> wellTyped field cvs" by simp
      then show ?thesis
        using Cons.IH by (simp add: CustomFieldStringValue Some)
    qed
  qed
qed

lemma visitor_wellTyped:
  assumes "clusterName \<noteq> nodeRole" and "wellTyped field (CustomValue (entity vm))"
  shows "ListMachines_visitor clusterName nodeRole spec vm (entity vm) field machineList =
           Inr (if carries field vm clusterName \<and> carries field vm nodeRole
                then machineList(encodeProviderID (Region spec) (UUID vm) \<mapsto> Name (entity vm))
                else machineList, None)"
  using assms by (simp add: ListMachines_visitor_def matchTags_wellTyped carries_def)

lemma visitor_panics:
  assumes "\<not> wellTyped field (CustomValue (entity vm))"
  shows "\<exists>p. ListMachines_visitor clusterName nodeRole spec vm (entity vm) field machineList = Inl p"
proof -
  from assms obtain p where
    "matchTags clusterName nodeRole field (CustomValue (entity vm)) (False, False) = Inl p"
    using matchTags_panics by blast
  then show ?thesis by (simp add: ListMachines_visitor_def)
qed

lemma visitEach_wellTyped:
  assumes "clusterName \<noteq> nodeRole"
  shows "\<forall>vm\<in>set vms. wellTyped field (CustomValue (entity vm)) \<Longrightarrow>
     \<exists>m. visitEach (ListMachines_visitor clusterName nodeRole spec) field vms machineList
           = Inr (m, None)
         \<and> (\<forall>pid. pid \<in> dom m \<longleftrightarrow>
               pid \<in> dom machineList
               \<or> (\<exists>vm\<in>set vms. pid = encodeProviderID (Region spec) (UUID vm)
                     \<and> carries field vm clusterName \<and> carries field vm nodeRole))
         \<and> (\<forall>pid name. m pid = Some name \<longrightarrow>
               machineList pid = Some name
               \<or> (\<exists>vm\<in>set vms. pid = encodeProviderID (Region spec) (UUID vm)
                     \<and> carries field vm clusterName \<and> carries field vm nodeRole
                     \<and> name = Name (entity vm)))"
proof (induction vms arbitrary: machineList)
  case Nil
  then show ?case by simp
next
  case (Cons vm vms)
  let ?ml = "if carries field vm clusterName \<and> carries field vm nodeRole
             then machineList(encodeProviderID (Region spec) (UUID vm) \<mapsto> Name (entity vm))
             else machineList"
  from Cons.prems have w: "wellTyped field (CustomValue (entity vm))"
    and ws: "\<forall>vm\<in>set vms. wellTyped field (CustomValue (entity vm))" by simp_all
  have v: "ListMachines_visitor clusterName nodeRole spec vm (entity vm) field machineList
             = Inr (?ml, None)"
    using assms w by (rule visitor_wellTyped)
  from Cons.IH [OF ws, of ?ml] obtain m where
    m: "visitEach (ListMachines_visitor clusterName nodeRole spec) field vms ?ml = Inr (m, None)"
    and d: "\<forall>pid. pid \<in> dom m \<longleftrightarrow>
               pid \<in> dom ?ml
               \<or> (\<exists>vm\<in>set vms. pid = encodeProviderID (Region spec) (UUID vm)
                     \<and> carries field vm clusterName \<and> carries field vm nodeRole)"
    and n: "\<forall>pid name. m pid = Some name \<longrightarrow>
               ?ml pid = Some name
               \<or> (\<exists>vm\<in>set vms. pid = encodeProviderID (Region spec) (UUID vm)
                     \<and> carries field vm clusterName \<and> carries field vm nodeRole
                     \<and> name = Name (entity vm))"
    by blast
  have "visitEach (ListMachines_visitor clusterName nodeRole spec) field (vm # vms) machineList
          = Inr (m, None)"
    by (simp add: v m)
  moreover have "\<forall>pid. pid \<in> dom m \<longleftrightarrow>
               pid \<in> dom machineList
               \<or> (\<exists>vm'\<in>set (vm # vms). pid = encodeProviderID (Region spec) (UUID vm')
                     \<and> carries field vm' clusterName \<and> carries field vm' nodeRole)"
    using d by (auto split: if_splits)
  moreover have "\<forall>pid name. m pid = Some name \<longrightarrow>
               machineList pid = Some name
               \<or> (\<exists>vm'\<in>set (vm # vms). pid = encodeProviderID (Region spec) (UUID vm')
                     \<and> carries field vm' clusterName \<and> carries field vm' nodeRole
                     \<and> name = Name (entity vm'))"
  proof (intro allI impI)
    fix pid name assume "m pid = Some name"
    with n have "?ml pid = Some name
               \<or> (\<exists>vm\<in>set vms. pid = encodeProviderID (Region spec) (UUID vm)
                     \<and> carries field vm clusterName \<and> carries field vm nodeRole
                     \<and> name = Name (entity vm))" by blast
    then show "machineList pid = Some name
               \<or> (\<exists>vm'\<in>set (vm # vms). pid = encodeProviderID (Region spec) (UUID vm')
                     \<and> carries field vm' clusterName \<and> carries field vm' nodeRole
                     \<and> name = Name (entity vm'))"
      by (auto split: if_splits)
  qed
  ultimately show ?case by blast
qed

lemma visitEach_panics:
  assumes "clusterName \<noteq> nodeRole"
  shows "\<exists>vm\<in>set vms. \<not> wellTyped field (CustomValue (entity vm)) \<Longrightarrow>
     \<exists>p. visitEach (ListMachines_visitor clusterName nodeRole spec) field vms machineList = Inl p"
proof (induction vms arbitrary: machineList)
  case Nil
  then show ?case by simp
next
  case (Cons vm vms)
  show ?case
  proof (cases "wellTyped field (CustomValue (entity vm))")
    case False
    then obtain p where
      "ListMachines_visitor clusterName nodeRole spec vm (entity vm) field machineList = Inl p"
      using visitor_panics by blast
    then show ?thesis by simp
  next
    case True
    with Cons.prems have "\<exists>vm\<in>set vms. \<not> wellTyped field (CustomValue (entity vm))" by simp
    then show ?thesis
      using Cons.IH by (simp add: visitor_wellTyped [OF assms True])
  qed
qed


lemma last_filter_in:
  assumes "\<exists>k\<in>set ks. P k"
  shows "last (x # filter P ks) \<in> set ks \<and> P (last (x # filter P ks))"
proof -
  from assms have ne: "filter P ks \<noteq> []" by (auto simp: filter_empty_conv)
  then have "last (filter P ks) \<in> set (filter P ks)" by (rule last_in_set)
  with ne show ?thesis by simp
qed

lemma ListMachines_keys_selected:
  assumes "tagKeys HasPrefix ks ([], []) = (clusterName, nodeRole)"
    and "\<exists>k\<in>set ks. HasPrefix k ''kubernetes.io/cluster/''"
    and "\<exists>k\<in>set ks. HasPrefix k ''kubernetes.io/role/''"
  shows "clusterName \<in> set ks \<and> HasPrefix clusterName ''kubernetes.io/cluster/''
         \<and> nodeRole \<in> set ks \<and> HasPrefix nodeRole ''kubernetes.io/role/''"
proof -
  from assms(3) have "\<exists>k\<in>set ks. \<not> HasPrefix k ''kubernetes.io/cluster/''
                        \<and> HasPrefix k ''kubernetes.io/role/''"
    using HasPrefix_cluster_not_role by blast
  from last_filter_in [OF assms(2), of "[]"] last_filter_in [OF this, of "[]"] assms(1)
  show ?thesis by (simp add: tagKeys_last)
qed

lemma custom_fields_called [simp]: "custom_fields (called c pf) = custom_fields pf"
  by (simp add: called_def)

lemma visitVirtualMachines_called:
  "visitVirtualMachines (called c pf) client spec visitor machineList =
     (called ScanTaggedMachines (called c pf),
      snd (visitVirtualMachines pf client spec visitor machineList))"
  unfolding visitVirtualMachines_def custom_fields_called scope_called scan_error_called
  by simp

lemma visitVirtualMachines_no_error:
  assumes "scan_error pf spec = None"
  shows "snd (visitVirtualMachines pf client spec visitor machineList) =
           visitEach visitor (custom_fields pf) (scope pf spec) machineList"
  using assms by (simp add: visitVirtualMachines_def)

lemma visitVirtualMachines_completes:
  assumes "snd (visitVirtualMachines pf client spec visitor machineList) = Inr (m, None)"
  shows "scan_error pf spec = None
         \<and> visitEach visitor (custom_fields pf) (scope pf spec) machineList = Inr (m, None)"
proof (cases "scan_error pf spec")
  case None
  with assms show ?thesis by (simp add: visitVirtualMachines_def)
next
  case (Some ne)
  obtain n err where ne: "ne = (n, err)" by (cases ne)
  from assms Some ne have False
    by (simp add: visitVirtualMachines_def split: sum.splits prod.splits option.splits)
  then show ?thesis ..
qed

lemma ListMachines_scan:
  assumes "createVsphereClient pf secrets = (pf1, Inr client)"
    and "tagKeys HasPrefix ks ([], []) = (clusterName, nodeRole)"
    and "clusterName \<noteq> []" and "nodeRole \<noteq> []"
  shows "snd (ListMachines ks pf spec secrets) =
           (case snd (visitVirtualMachines pf client spec
                        (ListMachines_visitor clusterName nodeRole spec) Map.empty) of
              Inl p \<Rightarrow> Inl p
            | Inr (machineList, Some err) \<Rightarrow> Inr (None, Some err)
            | Inr (machineList, None) \<Rightarrow> Inr (Some machineList, None))"
proof -
  have "pf1 = called OpenSession pf" using assms(1) by (rule createVsphereClient_Inr)
  then show ?thesis using assms
    by (simp add: ListMachines_def defer_Logout_def visitVirtualMachines_called
        split: sum.split prod.split option.split)
qed

lemma ListMachines_Some_session:
  assumes "snd (ListMachines ks pf spec secrets) = Inr (Some m, None)"
  shows "\<exists>pf1 client. createVsphereClient pf secrets = (pf1, Inr client)"
proof -
  obtain pf1 r where c: "createVsphereClient pf secrets = (pf1, r)"
    by (cases "createVsphereClient pf secrets")
  show ?thesis
  proof (cases r)
    case (Inl err)
    with assms c show ?thesis by (simp add: ListMachines_def)
  next
    case (Inr client)
    with c show ?thesis by simp
  qed
qed

text \<open>With a session, both keys selected, a scan that does not fail and custom values
  on which the visitor does not panic, \<open>ListMachines\<close> returns a map.\<close>

lemma ListMachines_returns:
  assumes "createVsphereClient pf secrets = (pf1, Inr client)"
    and "tagKeys HasPrefix ks ([], []) = (clusterName, nodeRole)"
    and "clusterName \<noteq> []" and "nodeRole \<noteq> []" and "clusterName \<noteq> nodeRole"
    and "scan_error pf spec = None"
    and "\<forall>vm\<in>set (scope pf spec). wellTyped (custom_fields pf) (CustomValue (entity vm))"
  shows "\<exists>m. snd (ListMachines ks pf spec secrets) = Inr (Some m, None)"
proof -
  obtain m where "visitEach (ListMachines_visitor clusterName nodeRole spec)
                    (custom_fields pf) (scope pf spec) Map.empty = Inr (m, None)"
    using visitEach_wellTyped [OF assms(5,7), of spec Map.empty] by (elim exE conjE)
  then have "snd (ListMachines ks pf spec secrets) = Inr (Some m, None)"
    by (simp add: ListMachines_scan [OF assms(1-4)] visitVirtualMachines_no_error [OF assms(6)])
  then show ?thesis by (intro exI)
qed

text \<open>
  C3 (as amended). Let the tags of the specification have a key with each of the two
  prefixes, and let \<open>clusterName\<close> and \<open>nodeRole\<close> be the keys that the loop of
  \<open>ListMachines\<close> selects. Both are keys of the specification with their prefixes.
  Whenever \<open>ListMachines\<close> returns a map, an identifier is in the map if and only if it
  is the identifier of a machine in scope that carries both the name \<open>clusterName\<close> and
  the name \<open>nodeRole\<close>, and it is mapped to the name of such a machine. The names are
  compared for equality with the keys of the specification; a machine carrying one of the
  two only adds no entry.
\<close>

theorem ListMachines_tag_match:
  assumes "range_order (Tags spec) ks"
    and "\<exists>k\<in>dom (Tags spec). HasPrefix k ''kubernetes.io/cluster/''"
    and "\<exists>k\<in>dom (Tags spec). HasPrefix k ''kubernetes.io/role/''"
    and "tagKeys HasPrefix ks ([], []) = (clusterName, nodeRole)"
    and "snd (ListMachines ks pf spec secrets) = Inr (Some m, None)"
  shows "(clusterName \<in> dom (Tags spec) \<and> HasPrefix clusterName ''kubernetes.io/cluster/''
          \<and> nodeRole \<in> dom (Tags spec) \<and> HasPrefix nodeRole ''kubernetes.io/role/'')
       \<and> (\<forall>pid. pid \<in> dom m \<longleftrightarrow>
               (\<exists>vm\<in>set (scope pf spec). pid = encodeProviderID (Region spec) (UUID vm)
                  \<and> carries (custom_fields pf) vm clusterName
                  \<and> carries (custom_fields pf) vm nodeRole))
       \<and> (\<forall>pid name. m pid = Some name \<longrightarrow>
               (\<exists>vm\<in>set (scope pf spec). pid = encodeProviderID (Region spec) (UUID vm)
                  \<and> carries (custom_fields pf) vm clusterName
                  \<and> carries (custom_fields pf) vm nodeRole
                  \<and> name = Name (entity vm)))"
proof -
  let ?V = "ListMachines_visitor clusterName nodeRole spec"
  let ?scan = "visitEach ?V (custom_fields pf) (scope pf spec) Map.empty"
  let ?wt = "\<forall>vm\<in>set (scope pf spec). wellTyped (custom_fields pf) (CustomValue (entity vm))"
  from assms(1) have ks: "set ks = dom (Tags spec)" by (simp add: range_order_def)
  have keys: "clusterName \<in> set ks \<and> HasPrefix clusterName ''kubernetes.io/cluster/''
         \<and> nodeRole \<in> set ks \<and> HasPrefix nodeRole ''kubernetes.io/role/''"
    using assms(4) assms(2,3) unfolding ks [symmetric] by (rule ListMachines_keys_selected)
  then have ne: "clusterName \<noteq> []" "nodeRole \<noteq> []" and neq: "clusterName \<noteq> nodeRole"
    using HasPrefix_nonempty HasPrefix_cluster_not_role by blast+
  from ListMachines_Some_session [OF assms(5)]
  obtain pf1 client where session: "createVsphereClient pf secrets = (pf1, Inr client)"
    by (elim exE)
  have "snd (visitVirtualMachines pf client spec ?V Map.empty) = Inr (m, None)"
    using assms(5) unfolding ListMachines_scan [OF session assms(4) ne]
    by (simp split: sum.splits prod.splits option.splits)
  then have scan: "?scan = Inr (m, None)"
    using visitVirtualMachines_completes by blast
  have ?wt
  proof (rule ccontr)
    assume "\<not> ?wt"
    then obtain p where "?scan = Inl p"
      using visitEach_panics [OF neq, of "scope pf spec" "custom_fields pf" spec Map.empty]
      by blast
    with scan show False by simp
  qed
  then obtain m' where s: "?scan = Inr (m', None)"
    and d: "\<forall>pid. pid \<in> dom m' \<longleftrightarrow>
             pid \<in> dom (Map.empty :: machineList)
             \<or> (\<exists>vm\<in>set (scope pf spec). pid = encodeProviderID (Region spec) (UUID vm)
                   \<and> carries (custom_fields pf) vm clusterName
                   \<and> carries (custom_fields pf) vm nodeRole)"
    and n: "\<forall>pid name. m' pid = Some name \<longrightarrow>
             (Map.empty :: machineList) pid = Some name
             \<or> (\<exists>vm\<in>set (scope pf spec). pid = encodeProviderID (Region spec) (UUID vm)
                   \<and> carries (custom_fields pf) vm clusterName
                   \<and> carries (custom_fields pf) vm nodeRole
                   \<and> name = Name (entity vm))"
    using visitEach_wellTyped [OF neq, of "scope pf spec" "custom_fields pf" spec Map.empty]
    by blast
  from scan s have "m' = m" by simp
  with d n have content: "(\<forall>pid. pid \<in> dom m \<longleftrightarrow>
               (\<exists>vm\<in>set (scope pf spec). pid = encodeProviderID (Region spec) (UUID vm)
                  \<and> carries (custom_fields pf) vm clusterName
                  \<and> carries (custom_fields pf) vm nodeRole))
            \<and> (\<forall>pid name. m pid = Some name \<longrightarrow>
               (\<exists>vm\<in>set (scope pf spec). pid = encodeProviderID (Region spec) (UUID vm)
                  \<and> carries (custom_fields pf) vm clusterName
                  \<and> carries (custom_fields pf) vm nodeRole
                  \<and> name = Name (entity vm)))"
    by simp
  from keys ks content show ?thesis by simp
qed

lemma example_tagKeys:
  "tagKeys HasPrefix example_keys ([], []) = (''kubernetes.io/cluster/a'', ''kubernetes.io/role/node'')"
  by (simp add: example_keys_def HasPrefix_def)

lemma example_has_cluster: "\<exists>k\<in>dom (Tags example_spec). HasPrefix k ''kubernetes.io/cluster/''"
  by (simp add: example_spec_def HasPrefix_def)

lemma example_has_role: "\<exists>k\<in>dom (Tags example_spec). HasPrefix k ''kubernetes.io/role/''"
  by (simp add: example_spec_def HasPrefix_def)

theorem ListMachines_tag_match_witness:
  "range_order (Tags example_spec) example_keys
   \<and> (\<exists>k\<in>dom (Tags example_spec). HasPrefix k ''kubernetes.io/cluster/'')
   \<and> (\<exists>k\<in>dom (Tags example_spec). HasPrefix k ''kubernetes.io/role/'')
   \<and> tagKeys HasPrefix example_keys ([], []) = (''kubernetes.io/cluster/a'', ''kubernetes.io/role/node'')
   \<and> snd (ListMachines example_keys example_platform example_spec example_secrets)
       = Inr (Some [''vsphere://eu-1/uuid-a'' \<mapsto> ''machine-a''], None)
   \<and> ''kubernetes.io/cluster/a'' \<in> dom (Tags example_spec)
   \<and> ''kubernetes.io/role/node'' \<in> dom (Tags example_spec)
   \<and> (\<forall>pid. pid \<in> dom [''vsphere://eu-1/uuid-a'' \<mapsto> ''machine-a''] \<longleftrightarrow>
         (\<exists>vm\<in>set (scope example_platform example_spec).
            pid = encodeProviderID (Region example_spec) (UUID vm)
            \<and> carries (custom_fields example_platform) vm ''kubernetes.io/cluster/a''
            \<and> carries (custom_fields example_platform) vm ''kubernetes.io/role/node''))"
proof -
  note t = ListMachines_tag_match [OF example_range_order example_has_cluster
      example_has_role example_tagKeys example_ListMachines]
  have k: "''kubernetes.io/cluster/a'' \<in> dom (Tags example_spec)"
    "''kubernetes.io/role/node'' \<in> dom (Tags example_spec)"
    using t by blast+
  have d: "\<forall>pid. pid \<in> dom [''vsphere://eu-1/uuid-a'' \<mapsto> ''machine-a''] \<longleftrightarrow>
         (\<exists>vm\<in>set (scope example_platform example_spec).
            pid = encodeProviderID (Region example_spec) (UUID vm)
            \<and> carries (custom_fields example_platform) vm ''kubernetes.io/cluster/a''
            \<and> carries (custom_fields example_platform) vm ''kubernetes.io/role/node'')"
    by (rule t [THEN conjunct2, THEN conjunct1])
  show ?thesis
    by (intro conjI example_range_order example_has_cluster example_has_role
        example_tagKeys example_ListMachines k d)
qed

text \<open>
  The machine \<open>machine_b\<close> carries the names \<open>kubernetes.io/cluster/b\<close> and
  \<open>kubernetes.io/role/worker\<close>, which match both patterns, and is not listed for a
  specification whose keys are \<open>kubernetes.io/cluster/a\<close> and
  \<open>kubernetes.io/role/node\<close>.
\<close>

lemma example_fieldNames_b:
  "fieldNames (custom_fields example_platform) (CustomValue (entity machine_b))
     = [''kubernetes.io/cluster/b'', ''kubernetes.io/role/worker'']"
  by (simp add: example_platform_def machine_b_def)

theorem ListMachines_other_cluster_counterexample:
  "range_order (Tags example_spec) example_keys
   \<and> machine_b \<in> set (scope example_platform example_spec)
   \<and> (\<exists>name\<in>set (fieldNames (custom_fields example_platform) (CustomValue (entity machine_b))).
         HasPrefix name ''kubernetes.io/cluster/'')
   \<and> (\<exists>name\<in>set (fieldNames (custom_fields example_platform) (CustomValue (entity machine_b))).
         HasPrefix name ''kubernetes.io/role/'')
   \<and> snd (ListMachines example_keys example_platform example_spec example_secrets)
       = Inr (Some [''vsphere://eu-1/uuid-a'' \<mapsto> ''machine-a''], None)
   \<and> encodeProviderID (Region example_spec) (UUID machine_b)
       \<notin> dom [''vsphere://eu-1/uuid-a'' \<mapsto> ''machine-a'']"
proof -
  have 1: "machine_b \<in> set (scope example_platform example_spec)"
    by (simp add: example_scope)
  have 2: "\<exists>name\<in>set (fieldNames (custom_fields example_platform) (CustomValue (entity machine_b))).
         HasPrefix name ''kubernetes.io/cluster/''"
    by (simp add: example_fieldNames_b HasPrefix_def)
  have 3: "\<exists>name\<in>set (fieldNames (custom_fields example_platform) (CustomValue (entity machine_b))).
         HasPrefix name ''kubernetes.io/role/''"
    by (simp add: example_fieldNames_b HasPrefix_def)
  have 4: "encodeProviderID (Region example_spec) (UUID machine_b)
       \<notin> dom [''vsphere://eu-1/uuid-a'' \<mapsto> ''machine-a'']"
    by (simp add: encodeProviderID_def providerPrefix_def example_spec_def machine_b_def)
  show ?thesis
    using example_range_order 1 2 3 example_ListMachines 4 by (intro conjI)
qed

subsection \<open>The order of the keys\<close>

lemma distinct_at_most_one:
  assumes "distinct xs" and "distinct ys" and "set xs = set ys"
    and "\<forall>x\<in>set xs. \<forall>y\<in>set xs. x = y"
  shows "xs = ys"
proof -
  have one: "zs = [] \<or> (\<exists>z. zs = [z])" if "distinct zs" "\<forall>x\<in>set zs. \<forall>y\<in>set zs. x = y"
    for zs :: "'a list"
  proof (cases zs)
    case Nil
    then show ?thesis by simp
  next
    case (Cons z zs')
    have "zs' = []"
    proof (cases zs')
      case Nil
      then show ?thesis .
    next
      case (Cons z' zs'')
      with \<open>zs = z # zs'\<close> have zs: "zs = z # z' # zs''" by simp
      have "z = z'" by (rule that(2) [rule_format]) (simp_all add: zs)
      moreover from zs that(1) have "z \<noteq> z'" by simp
      ultimately show ?thesis by simp
    qed
    with Cons show ?thesis by simp
  qed
  have ys: "\<forall>x\<in>set ys. \<forall>y\<in>set ys. x = y"
    using assms(4) unfolding assms(3) .
  from one [OF assms(1) assms(4)] show ?thesis
  proof
    assume "xs = []"
    with assms(3) show ?thesis by simp
  next
    assume "\<exists>z. xs = [z]"
    then obtain x where x: "xs = [x]" ..
    with assms(3) have sy: "set ys = {x}" by simp
    from one [OF assms(2) ys] show ?thesis
    proof
      assume "ys = []"
      with sy show ?thesis by simp
    next
      assume "\<exists>z. ys = [z]"
      then obtain y where "ys = [y]" ..
      with sy x show ?thesis by simp
    qed
  qed
qed

lemma filter_order_irrelevant:
  assumes "distinct ks1" and "distinct ks2" and "set ks1 = set ks2"
    and "\<forall>x\<in>set ks1. \<forall>y\<in>set ks1. P x \<and> P y \<longrightarrow> x = y"
  shows "filter P ks1 = filter P ks2"
proof (rule distinct_at_most_one)
  show "distinct (filter P ks1)" using assms(1) by simp
  show "distinct (filter P ks2)" using assms(2) by simp
  show "set (filter P ks1) = set (filter P ks2)" using assms(3) by simp
  show "\<forall>x\<in>set (filter P ks1). \<forall>y\<in>set (filter P ks1). x = y" using assms(4) by simp
qed

lemma tagKeys_order_irrelevant:
  assumes "distinct ks1" and "distinct ks2" and "set ks1 = set ks2"
    and "\<forall>x\<in>set ks1. \<forall>y\<in>set ks1.
           HasPrefix x ''kubernetes.io/cluster/'' \<and> HasPrefix y ''kubernetes.io/cluster/'' \<longrightarrow> x = y"
    and "\<forall>x\<in>set ks1. \<forall>y\<in>set ks1.
           HasPrefix x ''kubernetes.io/role/'' \<and> HasPrefix y ''kubernetes.io/role/'' \<longrightarrow> x = y"
  shows "tagKeys HasPrefix ks1 acc = tagKeys HasPrefix ks2 acc"
proof -
  obtain c r where acc: "acc = (c, r)" by (cases acc)
  have "filter (\<lambda>k. HasPrefix k ''kubernetes.io/cluster/'') ks1
          = filter (\<lambda>k. HasPrefix k ''kubernetes.io/cluster/'') ks2"
    using assms(1-4) by (rule filter_order_irrelevant)
  moreover have "filter (\<lambda>k. \<not> HasPrefix k ''kubernetes.io/cluster/''
                                  \<and> HasPrefix k ''kubernetes.io/role/'') ks1
          = filter (\<lambda>k. \<not> HasPrefix k ''kubernetes.io/cluster/''
                                  \<and> HasPrefix k ''kubernetes.io/role/'') ks2"
    using assms(1-3)
  proof (rule filter_order_irrelevant)
    show "\<forall>x\<in>set ks1. \<forall>y\<in>set ks1.
       (\<not> HasPrefix x ''kubernetes.io/cluster/'' \<and> HasPrefix x ''kubernetes.io/role/'') \<and>
       (\<not> HasPrefix y ''kubernetes.io/cluster/'' \<and> HasPrefix y ''kubernetes.io/role/'') \<longrightarrow> x = y"
      using assms(5) by blast
  qed
  ultimately show ?thesis unfolding acc tagKeys_last by simp
qed

lemma ListMachines_order_irrelevant:
  assumes "tagKeys HasPrefix ks1 ([], []) = tagKeys HasPrefix ks2 ([], [])"
  shows "ListMachines ks1 pf spec secrets = ListMachines ks2 pf spec secrets"
  unfolding ListMachines_def assms by (rule refl)

lemma tagged_platform_session:
  "createVsphereClient (tagged_platform c r) secrets =
     (called OpenSession (tagged_platform c r),
      Inr (Client (''https://'' @ VsphereHost secrets @ ''/sdk'') (VsphereUsername secrets)))"
  by (simp add: createVsphereClient_def NewClient_def tagged_platform_def)

lemma tagged_platform_listing:
  assumes "tagKeys HasPrefix ks ([], []) = (clusterName, nodeRole)"
    and "clusterName \<noteq> []" and "nodeRole \<noteq> []" and "clusterName \<noteq> nodeRole"
    and "c \<noteq> nodeRole" and "r \<noteq> clusterName"
  shows "snd (ListMachines ks (tagged_platform c r) spec secrets) =
           Inr (Some (if c = clusterName \<and> r = nodeRole
                      then [encodeProviderID (Region spec) ''uuid-1'' \<mapsto> ''machine-1'']
                      else Map.empty), None)"
proof -
  let ?vm = "\<lparr>UUID = ''uuid-1'',
          entity = \<lparr>Name = ''machine-1'',
                    CustomValue = [CustomFieldStringValue 1 ''1'', CustomFieldStringValue 2 ''1'']\<rparr>,
          poweredOn = True\<rparr>"
  let ?field = "[\<lparr>def_Key = 1, def_Name = c\<rparr>, \<lparr>def_Key = 2, def_Name = r\<rparr>]"
  have s: "scope (tagged_platform c r) spec = [?vm]"
    by (simp add: scope_def tagged_platform_def)
  have f: "custom_fields (tagged_platform c r) = ?field"
    by (simp add: tagged_platform_def)
  have e: "scan_error (tagged_platform c r) spec = None"
    by (simp add: tagged_platform_def)
  have w: "wellTyped ?field (CustomValue (entity ?vm))" by simp
  have n: "fieldNames ?field (CustomValue (entity ?vm)) = [c, r]" by simp
  have v: "ListMachines_visitor clusterName nodeRole spec ?vm (entity ?vm) ?field Map.empty =
           Inr (if carries ?field ?vm clusterName \<and> carries ?field ?vm nodeRole
                then [encodeProviderID (Region spec) (UUID ?vm) \<mapsto> Name (entity ?vm)]
                else Map.empty, None)"
    using assms(4) w by (rule visitor_wellTyped)
  have cc: "carries ?field ?vm clusterName \<longleftrightarrow> c = clusterName"
    unfolding carries_def n using assms(6) by auto
  have cr: "carries ?field ?vm nodeRole \<longleftrightarrow> r = nodeRole"
    unfolding carries_def n using assms(5) by auto
  have "visitEach (ListMachines_visitor clusterName nodeRole spec) ?field [?vm] Map.empty =
          Inr (if c = clusterName \<and> r = nodeRole
                then [encodeProviderID (Region spec) ''uuid-1'' \<mapsto> ''machine-1'']
                else Map.empty, None)"
    unfolding visitEach.simps v cc cr by simp
  then show ?thesis
    unfolding ListMachines_scan [OF tagged_platform_session assms(1-3)]
      visitVirtualMachines_no_error [OF e] s f by simp
qed

lemma range_order_two_last:
  assumes "set ks0 = dom m - {k1, k2}" and "distinct ks0"
    and "k1 \<in> dom m" and "k2 \<in> dom m" and "k1 \<noteq> k2"
  shows "range_order m (ks0 @ [k2, k1])"
proof -
  from assms(1) have "k1 \<notin> set ks0" "k2 \<notin> set ks0" by simp_all
  with assms(2,5) have "distinct (ks0 @ [k2, k1])" by auto
  moreover from assms(1,3,4) have "set (ks0 @ [k2, k1]) = dom m" by auto
  ultimately show ?thesis by (simp add: range_order_def)
qed

lemma singleton_map_not_empty: "[a \<mapsto> b] \<noteq> Map.empty"
proof
  assume "[a \<mapsto> b] = Map.empty"
  then have "[a \<mapsto> b] a = Map.empty a" by (rule arg_cong)
  then show False by simp
qed

lemma two_cluster_keys:
  assumes "finite (dom (Tags spec))" and "k1 \<in> dom (Tags spec)" and "k2 \<in> dom (Tags spec)"
    and "k1 \<noteq> k2"
    and "HasPrefix k1 ''kubernetes.io/cluster/''" and "HasPrefix k2 ''kubernetes.io/cluster/''"
  shows "\<exists>ks1 ks2. range_order (Tags spec) ks1 \<and> range_order (Tags spec) ks2
          \<and> tagKeys HasPrefix ks1 ([], []) \<noteq> tagKeys HasPrefix ks2 ([], [])
          \<and> ((\<exists>r\<in>dom (Tags spec). HasPrefix r ''kubernetes.io/role/'')
              \<longrightarrow> (\<exists>pf secrets. snd (ListMachines ks1 pf spec secrets)
                                   \<noteq> snd (ListMachines ks2 pf spec secrets)))"
proof -
  let ?A = "\<lambda>k. HasPrefix k ''kubernetes.io/cluster/''"
  let ?B = "\<lambda>k. \<not> HasPrefix k ''kubernetes.io/cluster/'' \<and> HasPrefix k ''kubernetes.io/role/''"
  from assms(1) have "finite (dom (Tags spec) - {k1, k2})" by simp
  from finite_distinct_list [OF this]
  obtain ks0 where ks0: "set ks0 = dom (Tags spec) - {k1, k2}" and d: "distinct ks0"
    by (elim exE conjE)
  let ?rr = "last ([] # filter ?B ks0)"
  have o1: "range_order (Tags spec) (ks0 @ [k2, k1])"
    using ks0 d assms(2,3,4) by (rule range_order_two_last)
  have ks0': "set ks0 = dom (Tags spec) - {k2, k1}" using ks0 by (simp add: insert_commute)
  have o2: "range_order (Tags spec) (ks0 @ [k1, k2])"
    using ks0' d assms(3,2) assms(4) [symmetric] by (rule range_order_two_last)
  have t1: "tagKeys HasPrefix (ks0 @ [k2, k1]) ([], []) = (k1, ?rr)"
    using assms(5,6) by (simp add: tagKeys_last)
  have t2: "tagKeys HasPrefix (ks0 @ [k1, k2]) ([], []) = (k2, ?rr)"
    using assms(5,6) by (simp add: tagKeys_last)
  have ne: "tagKeys HasPrefix (ks0 @ [k2, k1]) ([], []) \<noteq> tagKeys HasPrefix (ks0 @ [k1, k2]) ([], [])"
    unfolding t1 t2 using assms(4) by simp
  have differ: "\<exists>pf secrets. snd (ListMachines (ks0 @ [k2, k1]) pf spec secrets)
                                   \<noteq> snd (ListMachines (ks0 @ [k1, k2]) pf spec secrets)"
    if "\<exists>r\<in>dom (Tags spec). HasPrefix r ''kubernetes.io/role/''"
  proof -
    from that obtain r where r: "r \<in> dom (Tags spec)" "HasPrefix r ''kubernetes.io/role/''" by blast
    with assms(5,6) have "r \<noteq> k1" "r \<noteq> k2" using HasPrefix_cluster_not_role by blast+
    with r ks0 have "r \<in> set ks0" by simp
    moreover from r assms have "?B r" using HasPrefix_cluster_not_role by blast
    ultimately have "\<exists>k\<in>set ks0. ?B k" by blast
    then have rr: "?rr \<in> set ks0 \<and> ?B ?rr" by (rule last_filter_in)
    then have rr_ne: "?rr \<noteq> []" using HasPrefix_nonempty by blast
    from rr ks0 have rr_k: "?rr \<noteq> k1" "?rr \<noteq> k2" by auto
    have k_ne: "k1 \<noteq> []" "k2 \<noteq> []" using assms(5,6) HasPrefix_nonempty by blast+
    let ?pf = "tagged_platform k1 ?rr"
    have l1: "snd (ListMachines (ks0 @ [k2, k1]) ?pf spec example_secrets) =
           Inr (Some (if k1 = k1 \<and> ?rr = ?rr
                      then [encodeProviderID (Region spec) ''uuid-1'' \<mapsto> ''machine-1'']
                      else Map.empty), None)"
      using t1 k_ne(1) rr_ne rr_k(1) [symmetric] rr_k(1) [symmetric] rr_k(1)
      by (rule tagged_platform_listing)
    have l2: "snd (ListMachines (ks0 @ [k1, k2]) ?pf spec example_secrets) =
           Inr (Some (if k1 = k2 \<and> ?rr = ?rr
                      then [encodeProviderID (Region spec) ''uuid-1'' \<mapsto> ''machine-1'']
                      else Map.empty), None)"
      using t2 k_ne(2) rr_ne rr_k(2) [symmetric] rr_k(1) [symmetric] rr_k(2)
      by (rule tagged_platform_listing)
    have "snd (ListMachines (ks0 @ [k2, k1]) ?pf spec example_secrets)
            \<noteq> snd (ListMachines (ks0 @ [k1, k2]) ?pf spec example_secrets)"
      unfolding l1 l2 using assms(4) singleton_map_not_empty by simp
    then show ?thesis by blast
  qed
  from o1 o2 ne differ show ?thesis by blast
qed

lemma HasPrefix_role_not_cluster:
  "HasPrefix k ''kubernetes.io/role/'' \<Longrightarrow> \<not> HasPrefix k ''kubernetes.io/cluster/''"
  using HasPrefix_cluster_not_role by blast

lemma two_role_keys:
  assumes "finite (dom (Tags spec))" and "k1 \<in> dom (Tags spec)" and "k2 \<in> dom (Tags spec)"
    and "k1 \<noteq> k2"
    and "HasPrefix k1 ''kubernetes.io/role/''" and "HasPrefix k2 ''kubernetes.io/role/''"
  shows "\<exists>ks1 ks2. range_order (Tags spec) ks1 \<and> range_order (Tags spec) ks2
          \<and> tagKeys HasPrefix ks1 ([], []) \<noteq> tagKeys HasPrefix ks2 ([], [])
          \<and> ((\<exists>c\<in>dom (Tags spec). HasPrefix c ''kubernetes.io/cluster/'')
              \<longrightarrow> (\<exists>pf secrets. snd (ListMachines ks1 pf spec secrets)
                                   \<noteq> snd (ListMachines ks2 pf spec secrets)))"
proof -
  let ?A = "\<lambda>k. HasPrefix k ''kubernetes.io/cluster/''"
  from assms(1) have "finite (dom (Tags spec) - {k1, k2})" by simp
  from finite_distinct_list [OF this]
  obtain ks0 where ks0: "set ks0 = dom (Tags spec) - {k1, k2}" and d: "distinct ks0"
    by (elim exE conjE)
  let ?cc = "last ([] # filter ?A ks0)"
  have n1: "\<not> HasPrefix k1 ''kubernetes.io/cluster/''"
    using assms(5) by (rule HasPrefix_role_not_cluster)
  have n2: "\<not> HasPrefix k2 ''kubernetes.io/cluster/''"
    using assms(6) by (rule HasPrefix_role_not_cluster)
  have o1: "range_order (Tags spec) (ks0 @ [k2, k1])"
    using ks0 d assms(2,3,4) by (rule range_order_two_last)
  have ks0': "set ks0 = dom (Tags spec) - {k2, k1}" using ks0 by (simp add: insert_commute)
  have o2: "range_order (Tags spec) (ks0 @ [k1, k2])"
    using ks0' d assms(3,2) assms(4) [symmetric] by (rule range_order_two_last)
  have t1: "tagKeys HasPrefix (ks0 @ [k2, k1]) ([], []) = (?cc, k1)"
    using assms(5,6) n1 n2 by (simp add: tagKeys_last)
  have t2: "tagKeys HasPrefix (ks0 @ [k1, k2]) ([], []) = (?cc, k2)"
    using assms(5,6) n1 n2 by (simp add: tagKeys_last)
  have ne: "tagKeys HasPrefix (ks0 @ [k2, k1]) ([], []) \<noteq> tagKeys HasPrefix (ks0 @ [k1, k2]) ([], [])"
    unfolding t1 t2 using assms(4) by simp
  have differ: "\<exists>pf secrets. snd (ListMachines (ks0 @ [k2, k1]) pf spec secrets)
                                   \<noteq> snd (ListMachines (ks0 @ [k1, k2]) pf spec secrets)"
    if "\<exists>c\<in>dom (Tags spec). HasPrefix c ''kubernetes.io/cluster/''"
  proof -
    from that obtain c where c: "c \<in> dom (Tags spec)" "?A c" by (elim bexE)
    have "c \<noteq> k1" using c(2) n1 by (rule_tac notI) simp
    moreover have "c \<noteq> k2" using c(2) n2 by (rule_tac notI) simp
    ultimately have "c \<in> set ks0" using c(1) ks0 by simp
    with c(2) have "\<exists>k\<in>set ks0. ?A k" by (rule_tac bexI)
    then have cc: "?cc \<in> set ks0 \<and> ?A ?cc" by (rule last_filter_in)
    then have cc_ne: "?cc \<noteq> []" using HasPrefix_nonempty by (elim conjE) 
    from cc ks0 have cc_k: "?cc \<noteq> k1" "?cc \<noteq> k2" by auto
    have k_ne: "k1 \<noteq> []" "k2 \<noteq> []"
      using assms(5,6) HasPrefix_nonempty by blast+
    let ?pf = "tagged_platform ?cc k1"
    have l1: "snd (ListMachines (ks0 @ [k2, k1]) ?pf spec example_secrets) =
           Inr (Some (if ?cc = ?cc \<and> k1 = k1
                      then [encodeProviderID (Region spec) ''uuid-1'' \<mapsto> ''machine-1'']
                      else Map.empty), None)"
      using t1 cc_ne k_ne(1) cc_k(1) cc_k(1) cc_k(1) [symmetric]
      by (rule tagged_platform_listing)
    have l2: "snd (ListMachines (ks0 @ [k1, k2]) ?pf spec example_secrets) =
           Inr (Some (if ?cc = ?cc \<and> k1 = k2
                      then [encodeProviderID (Region spec) ''uuid-1'' \<mapsto> ''machine-1'']
                      else Map.empty), None)"
      using t2 cc_ne k_ne(2) cc_k(2) cc_k(2) cc_k(1) [symmetric]
      by (rule tagged_platform_listing)
    have "snd (ListMachines (ks0 @ [k2, k1]) ?pf spec example_secrets)
            \<noteq> snd (ListMachines (ks0 @ [k1, k2]) ?pf spec example_secrets)"
      unfolding l1 l2 using assms(4) singleton_map_not_empty by simp
    then show ?thesis by (intro exI)
  qed
  show ?thesis
    by (rule exI [of _ "ks0 @ [k2, k1]"], rule exI [of _ "ks0 @ [k1, k2]"])
       (intro conjI impI o1 o2 ne differ)
qed

text \<open>
  C10. When the tags of the specification have two distinct keys with the cluster prefix,
  or two with the role prefix, there are two orders of the keys for which the loop of
  \<open>ListMachines\<close> selects different keys; when the tags also have a key of each
  prefix, there is a platform on which the two runs return different results. When at
  most one key has each prefix, \<open>ListMachines\<close> gives the same platform and result
  for every two orders of the keys.
\<close>

theorem ListMachines_order_dependence:
  "(finite (dom (Tags spec)) \<and> k1 \<in> dom (Tags spec) \<and> k2 \<in> dom (Tags spec) \<and> k1 \<noteq> k2
      \<and> (HasPrefix k1 ''kubernetes.io/cluster/'' \<and> HasPrefix k2 ''kubernetes.io/cluster/''
           \<or> HasPrefix k1 ''kubernetes.io/role/'' \<and> HasPrefix k2 ''kubernetes.io/role/'')
    \<longrightarrow> (\<exists>ks1 ks2. range_order (Tags spec) ks1 \<and> range_order (Tags spec) ks2
          \<and> tagKeys HasPrefix ks1 ([], []) \<noteq> tagKeys HasPrefix ks2 ([], [])
          \<and> ((\<exists>c\<in>dom (Tags spec). HasPrefix c ''kubernetes.io/cluster/'')
               \<and> (\<exists>r\<in>dom (Tags spec). HasPrefix r ''kubernetes.io/role/'')
              \<longrightarrow> (\<exists>pf secrets. snd (ListMachines ks1 pf spec secrets)
                                   \<noteq> snd (ListMachines ks2 pf spec secrets)))))
   \<and> (range_order (Tags spec) ks \<and> range_order (Tags spec) ks'
        \<and> (\<forall>x\<in>dom (Tags spec). \<forall>y\<in>dom (Tags spec).
              HasPrefix x ''kubernetes.io/cluster/'' \<and> HasPrefix y ''kubernetes.io/cluster/''
              \<longrightarrow> x = y)
        \<and> (\<forall>x\<in>dom (Tags spec). \<forall>y\<in>dom (Tags spec).
              HasPrefix x ''kubernetes.io/role/'' \<and> HasPrefix y ''kubernetes.io/role/''
              \<longrightarrow> x = y)
      \<longrightarrow> ListMachines ks pf spec secrets = ListMachines ks' pf spec secrets)"
proof (rule conjI; rule impI)
  assume a: "finite (dom (Tags spec)) \<and> k1 \<in> dom (Tags spec) \<and> k2 \<in> dom (Tags spec) \<and> k1 \<noteq> k2
      \<and> (HasPrefix k1 ''kubernetes.io/cluster/'' \<and> HasPrefix k2 ''kubernetes.io/cluster/''
           \<or> HasPrefix k1 ''kubernetes.io/role/'' \<and> HasPrefix k2 ''kubernetes.io/role/'')"
  note f = a [THEN conjunct1]
    and k1 = a [THEN conjunct2, THEN conjunct1]
    and k2 = a [THEN conjunct2, THEN conjunct2, THEN conjunct1]
    and ne = a [THEN conjunct2, THEN conjunct2, THEN conjunct2, THEN conjunct1]
    and p = a [THEN conjunct2, THEN conjunct2, THEN conjunct2, THEN conjunct2]
  from p show "\<exists>ks1 ks2. range_order (Tags spec) ks1 \<and> range_order (Tags spec) ks2
          \<and> tagKeys HasPrefix ks1 ([], []) \<noteq> tagKeys HasPrefix ks2 ([], [])
          \<and> ((\<exists>c\<in>dom (Tags spec). HasPrefix c ''kubernetes.io/cluster/'')
               \<and> (\<exists>r\<in>dom (Tags spec). HasPrefix r ''kubernetes.io/role/'')
              \<longrightarrow> (\<exists>pf secrets. snd (ListMachines ks1 pf spec secrets)
                                   \<noteq> snd (ListMachines ks2 pf spec secrets)))"
  proof
    assume c: "HasPrefix k1 ''kubernetes.io/cluster/'' \<and> HasPrefix k2 ''kubernetes.io/cluster/''"
    from two_cluster_keys [OF f k1 k2 ne c [THEN conjunct1] c [THEN conjunct2]]
    obtain ks1 ks2 where o: "range_order (Tags spec) ks1" "range_order (Tags spec) ks2"
      and t: "tagKeys HasPrefix ks1 ([], []) \<noteq> tagKeys HasPrefix ks2 ([], [])"
      and d: "(\<exists>r\<in>dom (Tags spec). HasPrefix r ''kubernetes.io/role/'')
              \<longrightarrow> (\<exists>pf secrets. snd (ListMachines ks1 pf spec secrets)
                                   \<noteq> snd (ListMachines ks2 pf spec secrets))"
      by (elim exE conjE)
    show ?thesis
      by (rule exI [of _ ks1], rule exI [of _ ks2])
         (intro conjI impI o t d [THEN mp], elim conjE)
  next
    assume r: "HasPrefix k1 ''kubernetes.io/role/'' \<and> HasPrefix k2 ''kubernetes.io/role/''"
    from two_role_keys [OF f k1 k2 ne r [THEN conjunct1] r [THEN conjunct2]]
    obtain ks1 ks2 where o: "range_order (Tags spec) ks1" "range_order (Tags spec) ks2"
      and t: "tagKeys HasPrefix ks1 ([], []) \<noteq> tagKeys HasPrefix ks2 ([], [])"
      and d: "(\<exists>c\<in>dom (Tags spec). HasPrefix c ''kubernetes.io/cluster/'')
              \<longrightarrow> (\<exists>pf secrets. snd (ListMachines ks1 pf spec secrets)
                                   \<noteq> snd (ListMachines ks2 pf spec secrets))"
      by (elim exE conjE)
    show ?thesis
      by (rule exI [of _ ks1], rule exI [of _ ks2])
         (intro conjI impI o t d [THEN mp], elim conjE)
  qed
next
  assume a: "range_order (Tags spec) ks \<and> range_order (Tags spec) ks'
        \<and> (\<forall>x\<in>dom (Tags spec). \<forall>y\<in>dom (Tags spec).
              HasPrefix x ''kubernetes.io/cluster/'' \<and> HasPrefix y ''kubernetes.io/cluster/''
              \<longrightarrow> x = y)
        \<and> (\<forall>x\<in>dom (Tags spec). \<forall>y\<in>dom (Tags spec).
              HasPrefix x ''kubernetes.io/role/'' \<and> HasPrefix y ''kubernetes.io/role/''
              \<longrightarrow> x = y)"
  note o = a [THEN conjunct1] a [THEN conjunct2, THEN conjunct1]
    and c = a [THEN conjunct2, THEN conjunct2, THEN conjunct1]
    and r = a [THEN conjunct2, THEN conjunct2, THEN conjunct2]
  from o have d: "distinct ks" "distinct ks'" and s: "set ks = dom (Tags spec)"
    and s': "set ks' = dom (Tags spec)"
    by (simp_all add: range_order_def)
  have "tagKeys HasPrefix ks ([], []) = tagKeys HasPrefix ks' ([], [])"
  proof (rule tagKeys_order_irrelevant)
    show "distinct ks" "distinct ks'" by (rule d)+
    show "set ks = set ks'" unfolding s s' ..
    show "\<forall>x\<in>set ks. \<forall>y\<in>set ks.
           HasPrefix x ''kubernetes.io/cluster/'' \<and> HasPrefix y ''kubernetes.io/cluster/'' \<longrightarrow> x = y"
      unfolding s by (rule c)
    show "\<forall>x\<in>set ks. \<forall>y\<in>set ks.
           HasPrefix x ''kubernetes.io/role/'' \<and> HasPrefix y ''kubernetes.io/role/'' \<longrightarrow> x = y"
      unfolding s by (rule r)
  qed
  then show "ListMachines ks pf spec secrets = ListMachines ks' pf spec secrets"
    by (rule ListMachines_order_irrelevant)
qed

lemma dom_two_cluster_spec:
  "dom (Tags two_cluster_spec) =
     {''kubernetes.io/cluster/a'', ''kubernetes.io/cluster/b'', ''kubernetes.io/role/node''}"
  by (auto simp: two_cluster_spec_def)

lemma example_custom_fields_plain:
  "custom_fields example_platform =
        [\<lparr>def_Key = 1, def_Name = ''kubernetes.io/cluster/a''\<rparr>,
         \<lparr>def_Key = 2, def_Name = ''kubernetes.io/role/node''\<rparr>,
         \<lparr>def_Key = 3, def_Name = ''kubernetes.io/cluster/b''\<rparr>,
         \<lparr>def_Key = 4, def_Name = ''kubernetes.io/role/worker''\<rparr>]"
  by (simp add: example_platform_def)

lemma two_cluster_spec_listing_a:
  "snd (ListMachines [''kubernetes.io/role/node'', ''kubernetes.io/cluster/b'', ''kubernetes.io/cluster/a'']
          example_platform two_cluster_spec example_secrets)
     = Inr (Some [''vsphere://eu-1/uuid-a'' \<mapsto> ''machine-a''], None)"
  by (simp add: ListMachines_def example_session HasPrefix_def defer_Logout_def
     visitVirtualMachines_def example_scope example_scan_error example_custom_fields_plain
     ListMachines_visitor_def
     machine_a_def machine_b_def machine_c_def two_cluster_spec_def example_spec_def
     encodeProviderID_def providerPrefix_def)

lemma two_cluster_spec_listing_b:
  "snd (ListMachines [''kubernetes.io/role/node'', ''kubernetes.io/cluster/a'', ''kubernetes.io/cluster/b'']
          example_platform two_cluster_spec example_secrets)
     = Inr (Some Map.empty, None)"
  by (simp add: ListMachines_def example_session HasPrefix_def defer_Logout_def
     visitVirtualMachines_def example_scope example_scan_error example_custom_fields_plain
     ListMachines_visitor_def
     machine_a_def machine_b_def machine_c_def two_cluster_spec_def example_spec_def
     encodeProviderID_def providerPrefix_def)

lemma example_range_order_rev:
  "range_order (Tags example_spec) [''kubernetes.io/cluster/a'', ''kubernetes.io/role/node'']"
  by (auto simp: range_order_def example_spec_def)

lemma dom_example_spec:
  "dom (Tags example_spec) = {''kubernetes.io/cluster/a'', ''kubernetes.io/role/node''}"
  by (auto simp: example_spec_def)

theorem ListMachines_order_dependence_witness:
  "finite (dom (Tags two_cluster_spec))
   \<and> dom (Tags two_cluster_spec)
       = {''kubernetes.io/cluster/a'', ''kubernetes.io/cluster/b'', ''kubernetes.io/role/node''}
   \<and> HasPrefix ''kubernetes.io/cluster/a'' ''kubernetes.io/cluster/''
   \<and> HasPrefix ''kubernetes.io/cluster/b'' ''kubernetes.io/cluster/''
   \<and> HasPrefix ''kubernetes.io/role/node'' ''kubernetes.io/role/''
   \<and> (\<exists>ks1 ks2 pf secrets.
         range_order (Tags two_cluster_spec) ks1 \<and> range_order (Tags two_cluster_spec) ks2
         \<and> tagKeys HasPrefix ks1 ([], []) \<noteq> tagKeys HasPrefix ks2 ([], [])
         \<and> snd (ListMachines ks1 pf two_cluster_spec secrets)
             \<noteq> snd (ListMachines ks2 pf two_cluster_spec secrets))
   \<and> snd (ListMachines [''kubernetes.io/role/node'', ''kubernetes.io/cluster/b'', ''kubernetes.io/cluster/a'']
          example_platform two_cluster_spec example_secrets)
       = Inr (Some [''vsphere://eu-1/uuid-a'' \<mapsto> ''machine-a''], None)
   \<and> snd (ListMachines [''kubernetes.io/role/node'', ''kubernetes.io/cluster/a'', ''kubernetes.io/cluster/b'']
          example_platform two_cluster_spec example_secrets)
       = Inr (Some Map.empty, None)
   \<and> dom (Tags example_spec) = {''kubernetes.io/cluster/a'', ''kubernetes.io/role/node''}
   \<and> range_order (Tags example_spec) example_keys
   \<and> range_order (Tags example_spec) [''kubernetes.io/cluster/a'', ''kubernetes.io/role/node'']
   \<and> ListMachines example_keys example_platform example_spec example_secrets
       = ListMachines [''kubernetes.io/cluster/a'', ''kubernetes.io/role/node'']
           example_platform example_spec example_secrets"
proof -
  have f: "finite (dom (Tags two_cluster_spec))" by (simp add: dom_two_cluster_spec)
  have pa: "HasPrefix ''kubernetes.io/cluster/a'' ''kubernetes.io/cluster/''"
    by (simp add: HasPrefix_def)
  have pb: "HasPrefix ''kubernetes.io/cluster/b'' ''kubernetes.io/cluster/''"
    by (simp add: HasPrefix_def)
  have pr: "HasPrefix ''kubernetes.io/role/node'' ''kubernetes.io/role/''"
    by (simp add: HasPrefix_def)
  have nr: "\<not> HasPrefix ''kubernetes.io/cluster/a'' ''kubernetes.io/role/''"
    by (simp add: HasPrefix_def)
  have nc: "\<not> HasPrefix ''kubernetes.io/role/node'' ''kubernetes.io/cluster/''"
    by (simp add: HasPrefix_def)
  have h1: "finite (dom (Tags two_cluster_spec))
      \<and> ''kubernetes.io/cluster/a'' \<in> dom (Tags two_cluster_spec)
      \<and> ''kubernetes.io/cluster/b'' \<in> dom (Tags two_cluster_spec)
      \<and> ''kubernetes.io/cluster/a'' \<noteq> ''kubernetes.io/cluster/b''
      \<and> (HasPrefix ''kubernetes.io/cluster/a'' ''kubernetes.io/cluster/''
            \<and> HasPrefix ''kubernetes.io/cluster/b'' ''kubernetes.io/cluster/''
          \<or> HasPrefix ''kubernetes.io/cluster/a'' ''kubernetes.io/role/''
            \<and> HasPrefix ''kubernetes.io/cluster/b'' ''kubernetes.io/role/'')"
    using f pa pb by (simp add: dom_two_cluster_spec)
  have both: "(\<exists>c\<in>dom (Tags two_cluster_spec). HasPrefix c ''kubernetes.io/cluster/'')
               \<and> (\<exists>r\<in>dom (Tags two_cluster_spec). HasPrefix r ''kubernetes.io/role/'')"
    using pa pr by (simp add: dom_two_cluster_spec)
  note t = ListMachines_order_dependence
  from t [THEN conjunct1, THEN mp, OF h1]
  obtain ks1 ks2 where o: "range_order (Tags two_cluster_spec) ks1"
      "range_order (Tags two_cluster_spec) ks2"
    and k: "tagKeys HasPrefix ks1 ([], []) \<noteq> tagKeys HasPrefix ks2 ([], [])"
    and d: "(\<exists>c\<in>dom (Tags two_cluster_spec). HasPrefix c ''kubernetes.io/cluster/'')
               \<and> (\<exists>r\<in>dom (Tags two_cluster_spec). HasPrefix r ''kubernetes.io/role/'')
              \<longrightarrow> (\<exists>pf secrets. snd (ListMachines ks1 pf two_cluster_spec secrets)
                                   \<noteq> snd (ListMachines ks2 pf two_cluster_spec secrets))"
    by (elim exE conjE)
  from d [THEN mp, OF both] obtain pf secrets where
    l: "snd (ListMachines ks1 pf two_cluster_spec secrets)
          \<noteq> snd (ListMachines ks2 pf two_cluster_spec secrets)"
    by (elim exE)
  have ex: "\<exists>ks1 ks2 pf secrets.
         range_order (Tags two_cluster_spec) ks1 \<and> range_order (Tags two_cluster_spec) ks2
         \<and> tagKeys HasPrefix ks1 ([], []) \<noteq> tagKeys HasPrefix ks2 ([], [])
         \<and> snd (ListMachines ks1 pf two_cluster_spec secrets)
             \<noteq> snd (ListMachines ks2 pf two_cluster_spec secrets)"
    by (rule exI [of _ ks1], rule exI [of _ ks2], rule exI [of _ pf], rule exI [of _ secrets])
       (intro conjI o k l)
  have h2: "range_order (Tags example_spec) example_keys
        \<and> range_order (Tags example_spec) [''kubernetes.io/cluster/a'', ''kubernetes.io/role/node'']
        \<and> (\<forall>x\<in>dom (Tags example_spec). \<forall>y\<in>dom (Tags example_spec).
              HasPrefix x ''kubernetes.io/cluster/'' \<and> HasPrefix y ''kubernetes.io/cluster/''
              \<longrightarrow> x = y)
        \<and> (\<forall>x\<in>dom (Tags example_spec). \<forall>y\<in>dom (Tags example_spec).
              HasPrefix x ''kubernetes.io/role/'' \<and> HasPrefix y ''kubernetes.io/role/''
              \<longrightarrow> x = y)"
    using example_range_order example_range_order_rev nr nc
    by (simp add: dom_example_spec)
  have same: "ListMachines example_keys example_platform example_spec example_secrets
       = ListMachines [''kubernetes.io/cluster/a'', ''kubernetes.io/role/node'']
           example_platform example_spec example_secrets"
    by (rule t [THEN conjunct2, THEN mp, OF h2])
  show ?thesis
    by (intro conjI f dom_two_cluster_spec pa pb pr ex two_cluster_spec_listing_a
        two_cluster_spec_listing_b dom_example_spec example_range_order
        example_range_order_rev same)
qed

end
